theory Spec2Isabelle
  imports Complex_Main
begin

section \<open>JavaScript values as the application sees them\<close>

text \<open>
  The application is TypeScript compiled to JavaScript: its types are erased, and the
  ingestion code works on whatever \<^verbatim>\<open>JSON.parse\<close> returns. A value is therefore a
  JavaScript value. An object is its list of own properties in insertion order (keys are
  distinct in every object the runtime builds; a lookup takes the first entry). A string
  is a list of code units; none of the operations below looks inside a code unit. What
  \<^verbatim>\<open>trim\<close> removes is decided by the Unicode characters of the text, so
  \<^verbatim>\<open>trim\<close> is left to the runtime. A number is only ever tested for being zero.
\<close>

datatype jsval =
    Undefined
  | Null
  | Bool bool
  | Num real
  | Str string
  | Arr "jsval list"
  | Obj "(string \<times> jsval) list"

datatype jstype = T_undefined | T_object | T_boolean | T_number | T_string

text \<open>\<^verbatim>\<open>typeof v\<close> (of a value that is not a function).\<close>

fun typeof :: "jsval \<Rightarrow> jstype" where
  "typeof Undefined = T_undefined"
| "typeof Null = T_object"
| "typeof (Bool b) = T_boolean"
| "typeof (Num x) = T_number"
| "typeof (Str s) = T_string"
| "typeof (Arr xs) = T_object"
| "typeof (Obj kvs) = T_object"

text \<open>\<^verbatim>\<open>Array.isArray(v)\<close>.\<close>

fun isArray :: "jsval \<Rightarrow> bool" where
  "isArray (Arr xs) = True"
| "isArray v = False"

text \<open>What \<^verbatim>\<open>if (v)\<close>, \<^verbatim>\<open>!v\<close> and \<^verbatim>\<open>v || w\<close> test.\<close>

fun truthy :: "jsval \<Rightarrow> bool" where
  "truthy Undefined = False"
| "truthy Null = False"
| "truthy (Bool b) = b"
| "truthy (Num x) = (x \<noteq> 0)"
| "truthy (Str s) = (s \<noteq> [])"
| "truthy (Arr xs) = True"
| "truthy (Obj kvs) = True"

text \<open>\<^verbatim>\<open>a || b\<close>, for operands whose evaluation has no effect.\<close>

definition js_or :: "jsval \<Rightarrow> jsval \<Rightarrow> jsval" where
  "js_or a b = (if truthy a then a else b)"

text \<open>
  Decimal text of a number, as a template literal \<^verbatim>\<open>`${n}`\<close> prints an integer
  (an array index, or the milliseconds of \<^verbatim>\<open>Date.now()\<close>).
\<close>

definition digit :: "nat \<Rightarrow> char" where
  "digit d = ''0123456789'' ! d"

fun decimal :: "nat \<Rightarrow> string" where
  "decimal n = (if n < 10 then [digit n] else decimal (n div 10) @ [digit (n mod 10)])"

declare decimal.simps [simp del]

definition decimal_int :: "int \<Rightarrow> string" where
  "decimal_int k = (if k < 0 then CHR ''-'' # decimal (nat (- k)) else decimal (nat k))"

text \<open>
  \<^verbatim>\<open>v.name\<close> for a value that is neither \<^verbatim>\<open>undefined\<close> nor \<^verbatim>\<open>null\<close>.
  The program reads the names title, cards, id, examples, simplified, traditional,
  chinese, pinyin, english and length; none of them but length is inherited from a
  prototype.
\<close>

definition lookup :: "(string \<times> jsval) list \<Rightarrow> string \<Rightarrow> jsval" where
  "lookup kvs name = (case map_of kvs name of None \<Rightarrow> Undefined | Some v \<Rightarrow> v)"

fun property :: "jsval \<Rightarrow> string \<Rightarrow> jsval" where
  "property (Obj kvs) name = lookup kvs name"
| "property (Arr xs) name = (if name = ''length'' then Num (of_nat (length xs)) else Undefined)"
| "property (Str s) name = (if name = ''length'' then Num (of_nat (length s)) else Undefined)"
| "property v name = Undefined"

datatype exn =
    TypeError
  | SyntaxError
  | Error string
  | Rejected

text \<open>Reading a property of \<^verbatim>\<open>undefined\<close> or \<^verbatim>\<open>null\<close> throws a TypeError.\<close>

fun nullish :: "jsval \<Rightarrow> bool" where
  "nullish Undefined = True"
| "nullish Null = True"
| "nullish v = False"

definition get_prop :: "jsval \<Rightarrow> string \<Rightarrow> exn + jsval" where
  "get_prop v name = (if nullish v then Inl TypeError else Inr (property v name))"

text \<open>
  Writing a property in an object literal: an existing key keeps its place and takes the
  new value, a new key goes last.
\<close>

fun set_prop :: "(string \<times> jsval) list \<Rightarrow> string \<Rightarrow> jsval \<Rightarrow> (string \<times> jsval) list" where
  "set_prop [] k v = [(k, v)]"
| "set_prop ((k', v') # kvs) k v =
     (if k' = k then (k, v) # kvs else (k', v') # set_prop kvs k v)"

text \<open>
  The own enumerable properties that \<^verbatim>\<open>{...v}\<close> copies: those of an object, the
  indexed elements of an array or of a string, nothing for any other value
  (\<^verbatim>\<open>undefined\<close> and \<^verbatim>\<open>null\<close> included).
\<close>

fun indexed :: "nat \<Rightarrow> jsval list \<Rightarrow> (string \<times> jsval) list" where
  "indexed i [] = []"
| "indexed i (x # xs) = (decimal i, x) # indexed (Suc i) xs"

fun spread :: "jsval \<Rightarrow> (string \<times> jsval) list" where
  "spread (Obj kvs) = kvs"
| "spread (Arr xs) = indexed 0 xs"
| "spread (Str s) = indexed 0 (map (\<lambda>c. Str [c]) s)"
| "spread v = []"

section \<open>Review session state (App.tsx)\<close>

datatype script = Simplified | Traditional

text \<open>
  \<^verbatim>\<open>currentCardIndex\<close> is a JavaScript number. Every value it takes is an integer or
  \<^verbatim>\<open>NaN\<close> (the remainder by a card count of zero).
\<close>

datatype index = NaN | Index int

record app_state =
  deck :: "jsval option"
  currentCardIndex :: index
  isFlipped :: bool
  scriptMode :: script

text \<open>\<^verbatim>\<open>a + k\<close> and \<^verbatim>\<open>a % n\<close> on such numbers; \<^verbatim>\<open>%\<close> takes the sign of the dividend.\<close>

fun index_add :: "index \<Rightarrow> int \<Rightarrow> index" where
  "index_add NaN k = NaN"
| "index_add (Index a) k = Index (a + k)"

fun index_rem :: "index \<Rightarrow> int \<Rightarrow> index" where
  "index_rem NaN n = NaN"
| "index_rem (Index a) n = (if n = 0 then NaN else Index (sgn a * (\<bar>a\<bar> mod \<bar>n\<bar>)))"

text \<open>
  \<^verbatim>\<open>deck.cards.length\<close>. Every deck handed to \<^verbatim>\<open>handleDeckGenerated\<close> holds
  under \<^verbatim>\<open>cards\<close> an array built by \<^verbatim>\<open>Array.map\<close>; for any other shape the
  count is taken as 0.
\<close>

definition cards_length :: "jsval \<Rightarrow> int" where
  "cards_length d = (case property d ''cards'' of Arr cs \<Rightarrow> int (length cs) | _ \<Rightarrow> 0)"

definition handleDeckGenerated :: "jsval \<Rightarrow> app_state \<Rightarrow> app_state" where
  "handleDeckGenerated newDeck a =
     a\<lparr>deck := Some newDeck, currentCardIndex := Index 0, isFlipped := False\<rparr>"

text \<open>
  \<^verbatim>\<open>handleNext\<close> and \<^verbatim>\<open>handlePrev\<close>: the flip state is reset at once, the index
  moves when the 150 ms timer fires; the state below is the one after the timer.
\<close>

definition handleNext :: "app_state \<Rightarrow> app_state" where
  "handleNext a =
     (case deck a of
        None \<Rightarrow> a
      | Some d \<Rightarrow>
          a\<lparr>isFlipped := False,
            currentCardIndex := index_rem (index_add (currentCardIndex a) 1) (cards_length d)\<rparr>)"

definition handlePrev :: "app_state \<Rightarrow> app_state" where
  "handlePrev a =
     (case deck a of
        None \<Rightarrow> a
      | Some d \<Rightarrow>
          a\<lparr>isFlipped := False,
            currentCardIndex :=
              index_rem (index_add (index_add (currentCardIndex a) (- 1)) (cards_length d))
                (cards_length d)\<rparr>)"

definition handleFlip :: "app_state \<Rightarrow> app_state" where
  "handleFlip a = a\<lparr>isFlipped := \<not> isFlipped a\<rparr>"

definition resetDeck :: "app_state \<Rightarrow> app_state" where
  "resetDeck a = a\<lparr>deck := None, currentCardIndex := Index 0, isFlipped := False\<rparr>"

definition toggleScriptMode :: "app_state \<Rightarrow> app_state" where
  "toggleScriptMode a =
     a\<lparr>scriptMode := (if scriptMode a = Simplified then Traditional else Simplified)\<rparr>"

text \<open>
  The states the application can be in. It starts with no deck; the flip handler is bound
  to the card, the flip button and the keyboard listener, which exist only while a deck is
  loaded.
\<close>

definition initial_state :: app_state where
  "initial_state =
     \<lparr>deck = None, currentCardIndex = Index 0, isFlipped = False, scriptMode = Simplified\<rparr>"

inductive reachable :: "app_state \<Rightarrow> bool" where
  start: "reachable initial_state"
| generated: "reachable a \<Longrightarrow> reachable (handleDeckGenerated d a)"
| next_card: "reachable a \<Longrightarrow> reachable (handleNext a)"
| prev_card: "reachable a \<Longrightarrow> reachable (handlePrev a)"
| flip: "reachable a \<Longrightarrow> deck a \<noteq> None \<Longrightarrow> reachable (handleFlip a)"
| reset: "reachable a \<Longrightarrow> reachable (resetDeck a)"
| toggle: "reachable a \<Longrightarrow> reachable (toggleScriptMode a)"

section \<open>The canonical deck (types.ts)\<close>

record Example =
  ex_simplified :: string
  ex_traditional :: string
  ex_pinyin :: "string option"
  ex_english :: string

record FlashcardData =
  card_id :: string
  card_simplified :: string
  card_traditional :: string
  card_pinyin :: string
  card_english :: string
  card_examples :: "Example list"

record Deck =
  title :: string
  cards :: "FlashcardData list"




text \<open>The object a JSON text of the deck parses to, keys in the order of the interfaces.\<close>

definition example_json :: "Example \<Rightarrow> jsval" where
  "example_json e =
     Obj ([(''simplified'', Str (ex_simplified e)), (''traditional'', Str (ex_traditional e))]
          @ (case ex_pinyin e of None \<Rightarrow> [] | Some p \<Rightarrow> [(''pinyin'', Str p)])
          @ [(''english'', Str (ex_english e))])"

definition card_json :: "FlashcardData \<Rightarrow> jsval" where
  "card_json c =
     Obj [(''id'', Str (card_id c)),
          (''simplified'', Str (card_simplified c)),
          (''traditional'', Str (card_traditional c)),
          (''pinyin'', Str (card_pinyin c)),
          (''english'', Str (card_english c)),
          (''examples'', Arr (map example_json (card_examples c)))]"

definition deck_json :: "Deck \<Rightarrow> jsval" where
  "deck_json d = Obj [(''title'', Str (title d)), (''cards'', Arr (map card_json (cards d)))]"

section \<open>The runtime and the outside world\<close>

text \<open>
  What the browser and the generation service provide is a parameter of the model:
  \<^verbatim>\<open>JSON.parse\<close> (\<open>None\<close> when it throws a SyntaxError) and
  \<^verbatim>\<open>JSON.stringify(v, null, 2)\<close>; \<^verbatim>\<open>Date.now()\<close> as read while the array element
  at a position is mapped; the generation request for a user content, which is rejected or
  answers with the \<^verbatim>\<open>text\<close> of the response (\<open>None\<close> for \<^verbatim>\<open>undefined\<close>);
  \<^verbatim>\<open>String.prototype.trim\<close>, which removes the white space and the line
  terminators of Unicode at both ends of a text.
\<close>

record env =
  JSON_parse :: "string \<Rightarrow> jsval option"
  JSON_stringify :: "jsval \<Rightarrow> string"
  trim :: "string \<Rightarrow> string"
  Date_now :: "nat \<Rightarrow> int"
  generateContent :: "string \<Rightarrow> exn + string option"

text \<open>
  The application state, the state of the DeckGenerator component, and two logs that the
  program itself does not keep: the contents sent to the generation service, and the decks
  handed to \<^verbatim>\<open>onDeckGenerated\<close>.
\<close>

record world =
  app :: app_state
  inputValue :: string
  isLoading :: bool
  error :: "string option"
  requests :: "string list"
  delivered :: "jsval list"

text \<open>App passes \<^verbatim>\<open>handleDeckGenerated\<close> as \<^verbatim>\<open>onDeckGenerated\<close>.\<close>

definition onDeckGenerated :: "jsval \<Rightarrow> world \<Rightarrow> world" where
  "onDeckGenerated d w =
     w\<lparr>app := handleDeckGenerated d (app w), delivered := delivered w @ [d]\<rparr>"

section \<open>Export (App.tsx, saveDeck)\<close>


section \<open>The generation client (geminiService.ts)\<close>

text \<open>\<^verbatim>\<open>`card-${Date.now()}-${index}`\<close> and \<^verbatim>\<open>`imported-${Date.now()}-${i}`\<close>\<close>

definition generated_id :: "env \<Rightarrow> nat \<Rightarrow> string" where
  "generated_id env i = ''card-'' @ decimal_int (Date_now env i) @ ''-'' @ decimal i"

definition imported_id :: "env \<Rightarrow> nat \<Rightarrow> string" where
  "imported_id env i = ''imported-'' @ decimal_int (Date_now env i) @ ''-'' @ decimal i"

text \<open>\<^verbatim>\<open>xs.map((x, i) => f(x, i))\<close> for a callback that does not throw, from index i on.\<close>

fun map_index :: "('a \<Rightarrow> nat \<Rightarrow> 'b) \<Rightarrow> nat \<Rightarrow> 'a list \<Rightarrow> 'b list" where
  "map_index f i [] = []"
| "map_index f i (x # xs) = f x i # map_index f (Suc i) xs"

text \<open>The same for a callback that may throw: the first exception ends the map.\<close>

fun map_index_throwing :: "('a \<Rightarrow> nat \<Rightarrow> exn + 'b) \<Rightarrow> nat \<Rightarrow> 'a list \<Rightarrow> exn + 'b list" where
  "map_index_throwing f i [] = Inr []"
| "map_index_throwing f i (x # xs) =
     (case f x i of
        Inl e \<Rightarrow> Inl e
      | Inr y \<Rightarrow>
          (case map_index_throwing f (Suc i) xs of
             Inl e \<Rightarrow> Inl e
           | Inr ys \<Rightarrow> Inr (y # ys)))"

text \<open>\<^verbatim>\<open>(card, index) => ({ ...card, id: `card-${Date.now()}-${index}` })\<close>\<close>

definition with_generated_id :: "env \<Rightarrow> jsval \<Rightarrow> nat \<Rightarrow> jsval" where
  "with_generated_id env c i = Obj (set_prop (spread c) ''id'' (Str (generated_id env i)))"

definition parseResponse :: "env \<Rightarrow> string option \<Rightarrow> exn + jsval" where
  "parseResponse env response_text =
     (case response_text of
        None \<Rightarrow> Inl (Error ''No response from AI'')
      | Some jsonText \<Rightarrow>
          if jsonText = [] then Inl (Error ''No response from AI'')
          else
            (case JSON_parse env jsonText of
               None \<Rightarrow> Inl SyntaxError
             | Some data \<Rightarrow>
                 (case get_prop data ''cards'' of
                    Inl e \<Rightarrow> Inl e
                  | Inr (Arr cs) \<Rightarrow>
                      Inr (Obj [(''title'', property data ''title''),
                                (''cards'', Arr (map_index (with_generated_id env) 0 cs))])
                  | Inr other \<Rightarrow> Inl TypeError)))"

text \<open>
  \<^verbatim>\<open>generateDeckFromList\<close>: one request carrying the content in a fixed prompt; any
  exception is logged and thrown again.
\<close>

definition generateDeckFromList :: "env \<Rightarrow> string \<Rightarrow> exn + jsval" where
  "generateDeckFromList env content =
     (case generateContent env content of
        Inl e \<Rightarrow> Inl e
      | Inr response_text \<Rightarrow> parseResponse env response_text)"

definition call_generateDeckFromList :: "env \<Rightarrow> string \<Rightarrow> world \<Rightarrow> (exn + jsval) \<times> world" where
  "call_generateDeckFromList env content w =
     (generateDeckFromList env content, w\<lparr>requests := requests w @ [content]\<rparr>)"

section \<open>Ingestion (DeckGenerator.tsx)\<close>

definition isValidDeck :: "jsval \<Rightarrow> bool" where
  "isValidDeck data =
     (typeof data = T_object
      \<and> data \<noteq> Null
      \<and> typeof (property data ''title'') = T_string
      \<and> isArray (property data ''cards''))"

text \<open>\<^verbatim>\<open>Array.isArray(json) && json.every(item => typeof item === 'string')\<close>\<close>

definition isStringArray :: "jsval \<Rightarrow> bool" where
  "isStringArray json =
     (case json of Arr items \<Rightarrow> list_all (\<lambda>item. typeof item = T_string) items | _ \<Rightarrow> False)"

text \<open>
  \<^verbatim>\<open>json.join('\n')\<close> of an array of strings (the call is guarded by the test
  above; an element that is not a string is left out here).
\<close>

fun join_lines :: "jsval list \<Rightarrow> string" where
  "join_lines [] = []"
| "join_lines [Str s] = s"
| "join_lines (Str s # x # xs) = s @ [CHR 0x0A] @ join_lines (x # xs)"
| "join_lines (y # xs) = join_lines xs"

definition joined :: "jsval \<Rightarrow> string" where
  "joined json = (case json of Arr items \<Rightarrow> join_lines items | _ \<Rightarrow> [])"

text \<open>\<^verbatim>\<open>!content || !content.trim()\<close>\<close>

definition blank :: "env \<Rightarrow> string \<Rightarrow> bool" where
  "blank env content = (content = [] \<or> trim env content = [])"

text \<open>
  The example callback of \<^verbatim>\<open>processContent\<close>:
  \<^verbatim>\<open>ex => ({ simplified: ex.simplified || ex.chinese || "",
            traditional: ex.traditional || ex.chinese || "",
            pinyin: ex.pinyin, english: ex.english })\<close>
\<close>

definition normalize_example :: "jsval \<Rightarrow> nat \<Rightarrow> exn + jsval" where
  "normalize_example ex k =
     (if nullish ex then Inl TypeError
      else
        Inr (Obj [(''simplified'',
                    js_or (js_or (property ex ''simplified'') (property ex ''chinese'')) (Str [])),
                  (''traditional'',
                    js_or (js_or (property ex ''traditional'') (property ex ''chinese'')) (Str [])),
                  (''pinyin'', property ex ''pinyin''),
                  (''english'', property ex ''english'')]))"

text \<open>
  \<^verbatim>\<open>c.examples?.map(...) || []\<close>: reading \<^verbatim>\<open>examples\<close> of \<^verbatim>\<open>undefined\<close> or
  \<^verbatim>\<open>null\<close> throws; a missing or null \<^verbatim>\<open>examples\<close> gives the empty array; a value
  that is not an array has no \<^verbatim>\<open>map\<close> to call.
\<close>

definition normalize_examples :: "jsval \<Rightarrow> exn + jsval" where
  "normalize_examples c =
     (case get_prop c ''examples'' of
        Inl e \<Rightarrow> Inl e
      | Inr Undefined \<Rightarrow> Inr (Arr [])
      | Inr Null \<Rightarrow> Inr (Arr [])
      | Inr (Arr exs) \<Rightarrow>
          (case map_index_throwing normalize_example 0 exs of
             Inl e \<Rightarrow> Inl e
           | Inr exs' \<Rightarrow> Inr (Arr exs'))
      | Inr other \<Rightarrow> Inl TypeError)"

text \<open>
  The card callback of \<^verbatim>\<open>processContent\<close>:
  \<^verbatim>\<open>{ ...c, examples, id: c.id || `imported-${Date.now()}-${i}` }\<close>
\<close>

definition import_card :: "env \<Rightarrow> jsval \<Rightarrow> nat \<Rightarrow> exn + jsval" where
  "import_card env c i =
     (case normalize_examples c of
        Inl e \<Rightarrow> Inl e
      | Inr examples \<Rightarrow>
          Inr (Obj (set_prop (set_prop (spread c) ''examples'' examples) ''id''
                      (js_or (property c ''id'') (Str (imported_id env i))))))"

text \<open>
  Step 2 of \<^verbatim>\<open>processContent\<close> ("If not valid JSON or JSON Deck, treat as text list
  for AI"): the value returned or the exception thrown, and the state at that point.
\<close>

definition text_path :: "env \<Rightarrow> string \<Rightarrow> world \<Rightarrow> (exn + bool) \<times> world" where
  "text_path env content w =
     (if blank env content then (Inl (Error ''Content is empty''), w)
      else
        (case call_generateDeckFromList env content w of
           (Inl e, w1) \<Rightarrow> (Inl e, w1)
         | (Inr d, w1) \<Rightarrow> (Inr True, onDeckGenerated d w1)))"

text \<open>
  The body of the \<^verbatim>\<open>try\<close> block of \<^verbatim>\<open>processContent\<close>. The variable
  \<^verbatim>\<open>json\<close> stays \<^verbatim>\<open>undefined\<close> when \<^verbatim>\<open>JSON.parse\<close> throws.
\<close>

definition processContent_try :: "env \<Rightarrow> string \<Rightarrow> world \<Rightarrow> (exn + bool) \<times> world" where
  "processContent_try env content w =
     (let json = (case JSON_parse env content of None \<Rightarrow> Undefined | Some j \<Rightarrow> j) in
      if truthy json then
        if isValidDeck json then
          (case property json ''cards'' of
             Arr cs \<Rightarrow>
               (case map_index_throwing (import_card env) 0 cs of
                  Inl e \<Rightarrow> (Inl e, w)
                | Inr cards' \<Rightarrow>
                    (Inr True,
                     onDeckGenerated (Obj (set_prop (spread json) ''cards'' (Arr cards'))) w))
           | _ \<Rightarrow> (Inl TypeError, w))
        else if isStringArray json then
          (case call_generateDeckFromList env (joined json) w of
             (Inl e, w1) \<Rightarrow> (Inl e, w1)
           | (Inr d, w1) \<Rightarrow> (Inr True, onDeckGenerated d w1))
        else text_path env content w
      else text_path env content w)"

definition processContent_message :: string where
  "processContent_message =
     ''Failed to process content. Ensure it is a valid JSON deck or a list of words.''"

definition processContent :: "env \<Rightarrow> string \<Rightarrow> world \<Rightarrow> world \<times> bool" where
  "processContent env content w =
     (case processContent_try env content w of
        (Inr r, w') \<Rightarrow> (w', r)
      | (Inl e, w') \<Rightarrow> (w'\<lparr>error := Some processContent_message\<rparr>, False))"

text \<open>
  The importer of the upload-only DeckGenerator, \<^verbatim>\<open>processJsonContent\<close>. Its card
  callback is \<^verbatim>\<open>{ ...c, id: c.id || `imported-${Date.now()}-${i}` }\<close>.
\<close>

definition import_card_json :: "env \<Rightarrow> jsval \<Rightarrow> nat \<Rightarrow> exn + jsval" where
  "import_card_json env c i =
     (case get_prop c ''id'' of
        Inl e \<Rightarrow> Inl e
      | Inr v \<Rightarrow> Inr (Obj (set_prop (spread c) ''id'' (js_or v (Str (imported_id env i))))))"

definition invalid_format_message :: string where
  "invalid_format_message =
     ''Invalid JSON format. Please upload a saved Deck file or a list of words (array of strings).''"

definition parse_failed_message :: string where
  "parse_failed_message = ''Failed to parse JSON content.''"

definition processJsonContent_try :: "env \<Rightarrow> string \<Rightarrow> world \<Rightarrow> (exn + bool) \<times> world" where
  "processJsonContent_try env content w =
     (case JSON_parse env content of
        None \<Rightarrow> (Inl SyntaxError, w)
      | Some json \<Rightarrow>
          if isValidDeck json then
            (case property json ''cards'' of
               Arr cs \<Rightarrow>
                 (case map_index_throwing (import_card_json env) 0 cs of
                    Inl e \<Rightarrow> (Inl e, w)
                  | Inr cards' \<Rightarrow>
                      (Inr True,
                       onDeckGenerated (Obj (set_prop (spread json) ''cards'' (Arr cards'))) w))
             | _ \<Rightarrow> (Inl TypeError, w))
          else if isStringArray json then
            (case call_generateDeckFromList env (joined json) w of
               (Inl e, w1) \<Rightarrow> (Inl e, w1)
             | (Inr d, w1) \<Rightarrow> (Inr True, onDeckGenerated d w1))
          else (Inr False, w\<lparr>error := Some invalid_format_message\<rparr>))"

definition processJsonContent :: "env \<Rightarrow> string \<Rightarrow> world \<Rightarrow> world \<times> bool" where
  "processJsonContent env content w =
     (case processJsonContent_try env content w of
        (Inr r, w') \<Rightarrow> (w', r)
      | (Inl e, w') \<Rightarrow> (w'\<lparr>error := Some parse_failed_message\<rparr>, False))"

section \<open>The user actions that ingest (DeckGenerator.tsx)\<close>

text \<open>What \<^verbatim>\<open>fetch\<close> resolves to: \<^verbatim>\<open>ok\<close>, \<^verbatim>\<open>status\<close>, and the outcome of \<^verbatim>\<open>text()\<close>.\<close>

record response =
  ok :: bool
  status :: nat
  body :: "exn + string"

text \<open>
  The network, a parameter as well: whether \<^verbatim>\<open>new URL(s)\<close> accepts a text, what
  \<^verbatim>\<open>fetch(url)\<close> settles to, and the same for the Drive download of a file id with
  an access token.
\<close>

record io =
  URL_valid :: "string \<Rightarrow> bool"
  fetch :: "string \<Rightarrow> exn + response"
  fetch_authorized :: "string \<Rightarrow> string \<Rightarrow> exn + response"

text \<open>\<^verbatim>\<open>setIsLoading(true); setError(null);\<close>\<close>

definition begin_loading :: "world \<Rightarrow> world" where
  "begin_loading w = w\<lparr>isLoading := True, error := None\<rparr>"

definition manual_message :: string where
  "manual_message = ''Failed to generate deck. Please try again.''"

definition handleManualSubmit :: "env \<Rightarrow> world \<Rightarrow> world" where
  "handleManualSubmit env w =
     (if trim env (inputValue w) = [] then w
      else
        (case call_generateDeckFromList env (inputValue w) (begin_loading w) of
           (Inl e, w1) \<Rightarrow> w1\<lparr>error := Some manual_message, isLoading := False\<rparr>
         | (Inr d, w1) \<Rightarrow> (onDeckGenerated d w1)\<lparr>isLoading := False\<rparr>))"

text \<open>
  The \<^verbatim>\<open>try\<close> block shared by \<^verbatim>\<open>handleUrlSubmit\<close> and \<^verbatim>\<open>fetchDriveFile\<close>,
  from the answer of \<^verbatim>\<open>fetch\<close> on: an exception, or what \<^verbatim>\<open>processContent\<close>
  returned (the handlers ignore that value), and the state at that point.
\<close>

definition process_fetched ::
  "env \<Rightarrow> string \<Rightarrow> exn + response \<Rightarrow> world \<Rightarrow> (exn + bool) \<times> world" where
  "process_fetched env not_ok fetched w =
     (case fetched of
        Inl e \<Rightarrow> (Inl e, w)
      | Inr r \<Rightarrow>
          if \<not> ok r then (Inl (Error not_ok), w)
          else
            (case body r of
               Inl e \<Rightarrow> (Inl e, w)
             | Inr text \<Rightarrow> (case processContent env text w of (w', b) \<Rightarrow> (Inr b, w'))))"

definition url_message :: string where
  "url_message =
     ''Failed to fetch from URL. Note: The URL must be public and allow CORS (e.g. GitHub Raw Gist).''"

definition handleUrlSubmit_try :: "env \<Rightarrow> io \<Rightarrow> world \<Rightarrow> (exn + bool) \<times> world" where
  "handleUrlSubmit_try env sys w =
     (if \<not> URL_valid sys (inputValue w) then (Inl TypeError, w)
      else
        (case fetch sys (inputValue w) of
           Inl e \<Rightarrow> (Inl e, w)
         | Inr r \<Rightarrow>
             process_fetched env (''HTTP error! status: '' @ decimal (status r)) (Inr r) w))"

definition handleUrlSubmit :: "env \<Rightarrow> io \<Rightarrow> world \<Rightarrow> world" where
  "handleUrlSubmit env sys w =
     (if trim env (inputValue w) = [] then w
      else
        (case handleUrlSubmit_try env sys (begin_loading w) of
           (Inl e, w1) \<Rightarrow> w1\<lparr>error := Some url_message, isLoading := False\<rparr>
         | (Inr b, w1) \<Rightarrow> w1\<lparr>isLoading := False\<rparr>))"

definition drive_message :: string where
  "drive_message = ''Failed to read file from Google Drive.''"

definition fetchDriveFile_try ::
  "env \<Rightarrow> io \<Rightarrow> string \<Rightarrow> string \<Rightarrow> world \<Rightarrow> (exn + bool) \<times> world" where
  "fetchDriveFile_try env sys fileId accessToken w =
     process_fetched env ''Failed to download file'' (fetch_authorized sys fileId accessToken) w"

definition fetchDriveFile :: "env \<Rightarrow> io \<Rightarrow> string \<Rightarrow> string \<Rightarrow> world \<Rightarrow> world" where
  "fetchDriveFile env sys fileId accessToken w =
     (case fetchDriveFile_try env sys fileId accessToken w of
        (Inl e, w1) \<Rightarrow> w1\<lparr>error := Some drive_message, isLoading := False\<rparr>
      | (Inr b, w1) \<Rightarrow> w1\<lparr>isLoading := False\<rparr>)"

text \<open>
  \<^verbatim>\<open>handleFileUpload\<close>: no file chosen, or the outcome of \<^verbatim>\<open>readAsText\<close>
  (\<^verbatim>\<open>onload\<close> with the content, or \<^verbatim>\<open>onerror\<close>).
\<close>

datatype file_read = Loaded string | ReadFailed

definition file_message :: string where
  "file_message = ''Failed to read file.''"

definition handleFileUpload :: "env \<Rightarrow> file_read option \<Rightarrow> world \<Rightarrow> world" where
  "handleFileUpload env file w =
     (case file of
        None \<Rightarrow> w
      | Some (Loaded content) \<Rightarrow> (fst (processContent env content (begin_loading w)))\<lparr>isLoading := False\<rparr>
      | Some ReadFailed \<Rightarrow> (begin_loading w)\<lparr>error := Some file_message, isLoading := False\<rparr>)"

text \<open>
  The ingestion actions, and when one fails: an exception reaches the \<^verbatim>\<open>catch\<close> of
  the action, the file reader reports an error, or \<^verbatim>\<open>processContent\<close> returns
  \<^verbatim>\<open>false\<close>. An action that returns at once (blank input, no file) does not run.
\<close>

datatype action =
    ProcessContent string
  | ManualSubmit
  | UrlSubmit
  | FileUpload "file_read option"
  | DriveFile string string

fun perform :: "env \<Rightarrow> io \<Rightarrow> action \<Rightarrow> world \<Rightarrow> world" where
  "perform env sys (ProcessContent content) w = fst (processContent env content w)"
| "perform env sys ManualSubmit w = handleManualSubmit env w"
| "perform env sys UrlSubmit w = handleUrlSubmit env sys w"
| "perform env sys (FileUpload file) w = handleFileUpload env file w"
| "perform env sys (DriveFile fileId accessToken) w = fetchDriveFile env sys fileId accessToken w"

fun unsuccessful :: "(exn + bool) \<times> world \<Rightarrow> bool" where
  "unsuccessful (Inl e, w) = True"
| "unsuccessful (Inr b, w) = (\<not> b)"

fun fails :: "env \<Rightarrow> io \<Rightarrow> action \<Rightarrow> world \<Rightarrow> bool" where
  "fails env sys (ProcessContent content) w = (\<not> snd (processContent env content w))"
| "fails env sys ManualSubmit w =
     (trim env (inputValue w) \<noteq> [] \<and> isl (generateDeckFromList env (inputValue w)))"
| "fails env sys UrlSubmit w =
     (trim env (inputValue w) \<noteq> [] \<and> unsuccessful (handleUrlSubmit_try env sys (begin_loading w)))"
| "fails env sys (FileUpload file) w =
     (case file of
        None \<Rightarrow> False
      | Some (Loaded content) \<Rightarrow> \<not> snd (processContent env content (begin_loading w))
      | Some ReadFailed \<Rightarrow> True)"
| "fails env sys (DriveFile fileId accessToken) w =
     unsuccessful (fetchDriveFile_try env sys fileId accessToken w)"

section \<open>The deck shape of the specification\<close>

text \<open>
  The canonical deck shape in the words of the specification, for comparison with
  \<^verbatim>\<open>isValidDeck\<close> (section 2: "title + ordered list of card records, each with
  simplified/traditional/pinyin/english fields and a list of example records"). A record
  is an object; a field is a string property.
\<close>

definition has_string :: "jsval \<Rightarrow> string \<Rightarrow> bool" where
  "has_string v name = (typeof (property v name) = T_string)"

fun is_record :: "jsval \<Rightarrow> bool" where
  "is_record (Obj kvs) = True"
| "is_record v = False"

definition spec_card_shape :: "jsval \<Rightarrow> bool" where
  "spec_card_shape c =
     (is_record c
      \<and> has_string c ''simplified'' \<and> has_string c ''traditional''
      \<and> has_string c ''pinyin'' \<and> has_string c ''english''
      \<and> (case property c ''examples'' of Arr exs \<Rightarrow> list_all is_record exs | _ \<Rightarrow> False))"

definition spec_deck_shape :: "jsval \<Rightarrow> bool" where
  "spec_deck_shape v =
     (is_record v
      \<and> has_string v ''title''
      \<and> (case property v ''cards'' of Arr cs \<Rightarrow> list_all spec_card_shape cs | _ \<Rightarrow> False))"

section \<open>Legacy examples\<close>

text \<open>
  An example of the older format: no \<^verbatim>\<open>simplified\<close> and no \<^verbatim>\<open>traditional\<close>
  property, and the text under \<^verbatim>\<open>chinese\<close>.
\<close>

definition legacy_example :: "jsval \<Rightarrow> string \<Rightarrow> bool" where
  "legacy_example ex s =
     (property ex ''simplified'' = Undefined
      \<and> property ex ''traditional'' = Undefined
      \<and> property ex ''chinese'' = Str s)"

section \<open>Outcomes of the try block\<close>

text \<open>What every deck handed over by ingestion has: an array of cards, each with a truthy id.\<close>

definition ids_truthy :: "jsval \<Rightarrow> bool" where
  "ids_truthy v =
     (case property v ''cards'' of
        Arr cs \<Rightarrow> list_all (\<lambda>c. truthy (property c ''id'')) cs
      | _ \<Rightarrow> False)"

text \<open>
  How the \<^verbatim>\<open>try\<close> block of \<^verbatim>\<open>processContent\<close> can end from a state w: it
  returns true after handing such a deck to \<^verbatim>\<open>onDeckGenerated\<close>, or it throws with
  the state as it was; in both cases requests may have been sent.
\<close>

definition settles :: "world \<Rightarrow> (exn + bool) \<times> world \<Rightarrow> bool" where
  "settles w r =
     ((\<exists>d rs. ids_truthy d \<and> r = (Inr True, onDeckGenerated d (w\<lparr>requests := rs\<rparr>)))
      \<or> (\<exists>e rs. r = (Inl e, w\<lparr>requests := rs\<rparr>)))"

text \<open>What an ingestion action does to the application state: nothing, or it loads such a deck.\<close>

definition keeps_or_loads :: "app_state \<Rightarrow> app_state \<Rightarrow> bool" where
  "keeps_or_loads a a' = (a' = a \<or> (\<exists>d. ids_truthy d \<and> a' = handleDeckGenerated d a))"

section \<open>The states of a session\<close>

text \<open>
  The application starts without a deck. \<^verbatim>\<open>setDeck\<close> is called with a deck only in
  \<^verbatim>\<open>handleDeckGenerated\<close>, which only the DeckGenerator component calls, from its
  ingestion actions (those of the upload-only component included). The state of the
  component itself (the input, the loading flag, the message) changes with typing,
  switching tabs and mounting; any change of it is allowed here. The navigation handlers
  are those of the review session; flipping is bound only while a deck is shown.
\<close>

definition initial_world :: world where
  "initial_world =
     \<lparr>app = initial_state, inputValue = [], isLoading = False, error = None,
      requests = [], delivered = []\<rparr>"

inductive session :: "world \<Rightarrow> bool" where
  start: "session initial_world"
| ingest: "session w \<Longrightarrow> session (perform env sys act w)"
| ingest_json: "session w \<Longrightarrow> session (fst (processJsonContent env content w))"
| component: "session w \<Longrightarrow> session (w\<lparr>inputValue := s, isLoading := l, error := m\<rparr>)"
| next_card: "session w \<Longrightarrow> session (w\<lparr>app := handleNext (app w)\<rparr>)"
| prev_card: "session w \<Longrightarrow> session (w\<lparr>app := handlePrev (app w)\<rparr>)"
| flip: "session w \<Longrightarrow> deck (app w) \<noteq> None \<Longrightarrow> session (w\<lparr>app := handleFlip (app w)\<rparr>)"
| reset: "session w \<Longrightarrow> session (w\<lparr>app := resetDeck (app w)\<rparr>)"
| toggle: "session w \<Longrightarrow> session (w\<lparr>app := toggleScriptMode (app w)\<rparr>)"

section \<open>Sample data\<close>

text \<open>A small deck in memory and a session on its second card, flipped.\<close>

definition three_cards :: "jsval list" where
  "three_cards =
     [Obj [(''id'', Str ''a'')], Obj [(''id'', Str ''b'')], Obj [(''id'', Str ''c'')]]"

definition three_card_deck :: jsval where
  "three_card_deck = Obj [(''title'', Str ''Fruit''), (''cards'', Arr three_cards)]"

definition second_card_flipped :: app_state where
  "second_card_flipped =
     \<lparr>deck = Some three_card_deck, currentCardIndex = Index 1, isFlipped = True,
      scriptMode = Simplified\<rparr>"

definition text_of_lines :: "string list \<Rightarrow> string" where
  "text_of_lines ls = join_lines (map Str ls)"

definition fruit_deck :: Deck where
  "fruit_deck =
     \<lparr>title = ''Fruit'',
      cards =
        [\<lparr>card_id = ''card-1700000000000-0'', card_simplified = ''S1'', card_traditional = ''T1'',
          card_pinyin = ''P1'', card_english = ''apple'',
          card_examples =
            [\<lparr>ex_simplified = ''s1'', ex_traditional = ''t1'', ex_pinyin = Some ''p1'',
              ex_english = ''I eat apples''\<rparr>,
             \<lparr>ex_simplified = ''s2'', ex_traditional = ''t2'', ex_pinyin = None,
              ex_english = ''an apple a day''\<rparr>]\<rparr>,
         \<lparr>card_id = ''card-1700000000000-1'', card_simplified = ''S2'', card_traditional = ''T2'',
          card_pinyin = ''P2'', card_english = ''pear'', card_examples = []\<rparr>]\<rparr>"

definition fruit_text :: string where
  \<open>fruit_text = text_of_lines
     [''{'',
      ''  "title": "Fruit",'',
      ''  "cards": ['',
      ''    {'',
      ''      "id": "card-1700000000000-0",'',
      ''      "simplified": "S1",'',
      ''      "traditional": "T1",'',
      ''      "pinyin": "P1",'',
      ''      "english": "apple",'',
      ''      "examples": ['',
      ''        {'',
      ''          "simplified": "s1",'',
      ''          "traditional": "t1",'',
      ''          "pinyin": "p1",'',
      ''          "english": "I eat apples"'',
      ''        },'',
      ''        {'',
      ''          "simplified": "s2",'',
      ''          "traditional": "t2",'',
      ''          "english": "an apple a day"'',
      ''        }'',
      ''      ]'',
      ''    },'',
      ''    {'',
      ''      "id": "card-1700000000000-1",'',
      ''      "simplified": "S2",'',
      ''      "traditional": "T2",'',
      ''      "pinyin": "P2",'',
      ''      "english": "pear",'',
      ''      "examples": []'',
      ''    }'',
      ''  ]'',
      ''}'']\<close>

definition blank_id_deck :: Deck where
  "blank_id_deck =
     \<lparr>title = ''Fruit'',
      cards =
        [\<lparr>card_id = [], card_simplified = ''S1'', card_traditional = ''T1'',
          card_pinyin = ''P1'', card_english = ''apple'', card_examples = []\<rparr>]\<rparr>"

definition blank_id_text :: string where
  \<open>blank_id_text = text_of_lines
     [''{'',
      ''  "title": "Fruit",'',
      ''  "cards": ['',
      ''    {'',
      ''      "id": "",'',
      ''      "simplified": "S1",'',
      ''      "traditional": "T1",'',
      ''      "pinyin": "P1",'',
      ''      "english": "apple",'',
      ''      "examples": []'',
      ''    }'',
      ''  ]'',
      ''}'']\<close>

text \<open>
  An answer of the generation service whose card carries an \<^verbatim>\<open>id\<close> of its own, and
  the value its text parses to.
\<close>

definition answer_text :: string where
  \<open>answer_text = text_of_lines
     [''{'',
      ''  "title": "Custom Vocabulary List",'',
      ''  "cards": ['',
      ''    {'',
      ''      "id": "keep-me",'',
      ''      "simplified": "S1",'',
      ''      "traditional": "T1",'',
      ''      "pinyin": "P1",'',
      ''      "english": "apple",'',
      ''      "examples": []'',
      ''    }'',
      ''  ]'',
      ''}'']\<close>

definition answer_card :: jsval where
  "answer_card =
     Obj [(''id'', Str ''keep-me''),
          (''simplified'', Str ''S1''),
          (''traditional'', Str ''T1''),
          (''pinyin'', Str ''P1''),
          (''english'', Str ''apple''),
          (''examples'', Arr [])]"

definition answer_json :: jsval where
  "answer_json = Obj [(''title'', Str ''Custom Vocabulary List''), (''cards'', Arr [answer_card])]"

text \<open>The deck that \<^verbatim>\<open>parseResponse\<close> makes of it when the clock reads 1700000000123.\<close>

definition generated_card :: jsval where
  "generated_card =
     Obj [(''id'', Str ''card-1700000000123-0''),
          (''simplified'', Str ''S1''),
          (''traditional'', Str ''T1''),
          (''pinyin'', Str ''P1''),
          (''english'', Str ''apple''),
          (''examples'', Arr [])]"

definition generated_deck :: jsval where
  "generated_deck =
     Obj [(''title'', Str ''Custom Vocabulary List''), (''cards'', Arr [generated_card])]"

text \<open>
  A runtime for the examples. It parses, prints and trims the sample texts as the browser
  does: the text of a space, a line feed and a tab is trimmed to the empty text, and the
  other sample texts, which have no white space at either end, are left as they are. Its
  clock stands still. The service answers the content \<^verbatim>\<open>{}\<close> and rejects every
  other request.
\<close>

definition blank_text :: string where
  "blank_text = [CHR 0x20, CHR 0x0A, CHR 0x09]"

definition sample_trim :: "string \<Rightarrow> string" where
  "sample_trim s = (if s = blank_text then [] else s)"

definition sample_parse :: "string \<Rightarrow> jsval option" where
  "sample_parse s =
     (if s = fruit_text then Some (deck_json fruit_deck)
      else if s = blank_id_text then Some (deck_json blank_id_deck)
      else if s = answer_text then Some answer_json
      else if s = ''{}'' then Some (Obj [])
      else None)"

text \<open>
  The fruit deck as \<^verbatim>\<open>processContent\<close> builds it from its text: every example has
  a \<^verbatim>\<open>pinyin\<close> property, which holds \<^verbatim>\<open>undefined\<close> where the text had none.
  Printed, it gives the same text again.
\<close>

definition fruit_imported :: jsval where
  "fruit_imported =
     Obj [(''title'', Str ''Fruit''),
          (''cards'',
           Arr [Obj [(''id'', Str ''card-1700000000000-0''),
                     (''simplified'', Str ''S1''),
                     (''traditional'', Str ''T1''),
                     (''pinyin'', Str ''P1''),
                     (''english'', Str ''apple''),
                     (''examples'',
                      Arr [Obj [(''simplified'', Str ''s1''),
                                (''traditional'', Str ''t1''),
                                (''pinyin'', Str ''p1''),
                                (''english'', Str ''I eat apples'')],
                           Obj [(''simplified'', Str ''s2''),
                                (''traditional'', Str ''t2''),
                                (''pinyin'', Undefined),
                                (''english'', Str ''an apple a day'')]])],
                Obj [(''id'', Str ''card-1700000000000-1''),
                     (''simplified'', Str ''S2''),
                     (''traditional'', Str ''T2''),
                     (''pinyin'', Str ''P2''),
                     (''english'', Str ''pear''),
                     (''examples'', Arr [])]])]"

definition sample_stringify :: "jsval \<Rightarrow> string" where
  "sample_stringify v =
     (if v = deck_json fruit_deck \<or> v = fruit_imported then fruit_text
      else if v = deck_json blank_id_deck then blank_id_text
      else if v = Obj [] then ''{}''
      else [])"

definition sample_env :: env where
  "sample_env =
     \<lparr>JSON_parse = sample_parse,
      JSON_stringify = sample_stringify,
      trim = sample_trim,
      Date_now = (\<lambda>i. 1700000000123),
      generateContent =
        (\<lambda>content. if content = ''{}'' then Inr (Some answer_text) else Inl Rejected)\<rparr>"

definition blank_id_imported :: jsval where
  "blank_id_imported =
     Obj [(''title'', Str ''Fruit''),
          (''cards'',
           Arr [Obj [(''id'', Str ''imported-1700000000123-0''),
                     (''simplified'', Str ''S1''),
                     (''traditional'', Str ''T1''),
                     (''pinyin'', Str ''P1''),
                     (''english'', Str ''apple''),
                     (''examples'', Arr [])]])]"

text \<open>A deck whose card lacks most fields, and a card of the older format.\<close>

definition bare_card_deck :: jsval where
  "bare_card_deck =
     Obj [(''title'', Str ''Fruit''), (''cards'', Arr [Obj [(''english'', Str ''apple'')]])]"

definition legacy_card :: jsval where
  "legacy_card =
     Obj [(''simplified'', Str ''S1''),
          (''examples'',
           Arr [Obj [(''chinese'', Str ''z1''), (''english'', Str ''I eat apples'')],
                Obj [(''chinese'', Str ''z2''), (''pinyin'', Str ''p2'')]])]"

text \<open>
  A session on the three-card deck in which the user has typed a word, and an outside
  world that refuses every URL and rejects every fetch.
\<close>

definition typing_world :: world where
  "typing_world =
     \<lparr>app = second_card_flipped, inputValue = ''apple'', isLoading = False, error = None,
      requests = [], delivered = []\<rparr>"

definition sample_io :: io where
  "sample_io =
     \<lparr>URL_valid = (\<lambda>s. False),
      fetch = (\<lambda>url. Inl Rejected),
      fetch_authorized = (\<lambda>fileId accessToken. Inl Rejected)\<rparr>"

section \<open>Properties of objects\<close>

lemma lookup_set_prop_same: "lookup (set_prop kvs k v) k = v"
  by (induction kvs) (auto simp: lookup_def)

lemma lookup_set_prop_other: "k' \<noteq> k \<Longrightarrow> lookup (set_prop kvs k v) k' = lookup kvs k'"
  by (induction kvs) (auto simp: lookup_def)

section \<open>The sample runtime\<close>

lemma sample_texts_differ:
  "answer_text \<noteq> fruit_text" "answer_text \<noteq> blank_id_text"
  "''{}'' \<noteq> fruit_text" "''{}'' \<noteq> blank_id_text" "''{}'' \<noteq> answer_text"
  by (simp_all add: answer_text_def fruit_text_def blank_id_text_def text_of_lines_def)

lemma sample_parse_answer: "JSON_parse sample_env answer_text = Some answer_json"
  using sample_texts_differ by (simp add: sample_env_def sample_parse_def)

lemma sample_parse_braces: "JSON_parse sample_env ''{}'' = Some (Obj [])"
  using sample_texts_differ by (simp add: sample_env_def sample_parse_def)

lemma sample_parseResponse: "parseResponse sample_env (Some answer_text) = Inr generated_deck"
proof -
  have nonempty: "answer_text \<noteq> []"
    by (simp add: answer_text_def text_of_lines_def)
  have cards: "get_prop answer_json ''cards'' = Inr (Arr [answer_card])"
    by (simp add: answer_json_def get_prop_def lookup_def)
  have title: "property answer_json ''title'' = Str ''Custom Vocabulary List''"
    by (simp add: answer_json_def lookup_def)
  have id: "generated_id sample_env 0 = ''card-1700000000123-0''"
    by (simp add: generated_id_def sample_env_def decimal_int_def decimal.simps digit_def)
  have card: "with_generated_id sample_env answer_card 0 = generated_card"
    by (simp add: with_generated_id_def id) (simp add: answer_card_def generated_card_def)
  show ?thesis
    by (simp add: parseResponse_def nonempty sample_parse_answer cards title card
        generated_deck_def)
qed

lemma sample_generate_braces: "generateDeckFromList sample_env ''{}'' = Inr generated_deck"
proof -
  have "generateContent sample_env ''{}'' = Inr (Some answer_text)"
    by (simp add: sample_env_def)
  then show ?thesis
    by (simp add: generateDeckFromList_def sample_parseResponse)
qed

lemma sample_parse_blank_id: "JSON_parse sample_env blank_id_text = Some (deck_json blank_id_deck)"
proof -
  have "blank_id_text \<noteq> fruit_text"
    by (simp add: fruit_text_def blank_id_text_def text_of_lines_def)
  then show ?thesis by (simp add: sample_env_def sample_parse_def)
qed

lemma sample_import_blank_id:
  "processContent sample_env blank_id_text initial_world
     = (onDeckGenerated blank_id_imported initial_world, True)"
  unfolding processContent_def processContent_try_def sample_parse_blank_id
  by (simp add: deck_json_def card_json_def blank_id_deck_def isValidDeck_def lookup_def
      import_card_def normalize_examples_def get_prop_def js_or_def imported_id_def
      sample_env_def decimal_int_def decimal.simps digit_def blank_id_imported_def)

lemma sample_braces_not_blank: "\<not> blank sample_env ''{}''"
  by (simp add: blank_def sample_env_def sample_trim_def blank_text_def)



section \<open>Synthesized identifiers\<close>

lemma digit_in_digits: "d < 10 \<Longrightarrow> digit d \<in> set ''0123456789''"
  unfolding digit_def by (rule nth_mem) simp

lemma digit_not_dash: "d < 10 \<Longrightarrow> digit d \<noteq> CHR ''-''"
  using digit_in_digits [of d] by auto

lemma digit_inj:
  assumes "d < 10" and "d' < 10" and "digit d = digit d'"
  shows "d = d'"
proof -
  have "distinct ''0123456789''" by simp
  moreover have "d < length ''0123456789''" "d' < length ''0123456789''"
    using assms by simp_all
  ultimately show ?thesis
    using assms(3) unfolding digit_def by (simp only: nth_eq_iff_index_eq)
qed

lemma decimal_no_dash: "CHR ''-'' \<notin> set (decimal n)"
proof (induction n rule: decimal.induct)
  case (1 n)
  show ?case
  proof (cases "n < 10")
    case True
    then show ?thesis using digit_not_dash [of n] by (simp add: decimal.simps [of n])
  next
    case False
    have "n mod 10 < 10" by simp
    from digit_not_dash [OF this] 1 [OF False] False show ?thesis
      by (simp add: decimal.simps [of n])
  qed
qed

lemma decimal_nonempty: "decimal n \<noteq> []"
  by (simp add: decimal.simps [of n])

lemma decimal_inj: "decimal m = decimal n \<Longrightarrow> m = n"
proof (induction m arbitrary: n rule: decimal.induct)
  case (1 m)
  show ?case
  proof (cases "m < 10")
    case m: True
    show ?thesis
    proof (cases "n < 10")
      case True
      with m "1.prems" have "digit m = digit n" by (simp add: decimal.simps [of m] decimal.simps [of n])
      with m True show ?thesis by (rule digit_inj)
    next
      case False
      with m "1.prems" have "[digit m] = decimal (n div 10) @ [digit (n mod 10)]"
        by (simp add: decimal.simps [of m] decimal.simps [of n])
      then have "decimal (n div 10) = []" by simp
      with decimal_nonempty show ?thesis by blast
    qed
  next
    case m: False
    show ?thesis
    proof (cases "n < 10")
      case True
      with m "1.prems" have "decimal (m div 10) @ [digit (m mod 10)] = [digit n]"
        by (simp add: decimal.simps [of m] decimal.simps [of n])
      then have "decimal (m div 10) = []" by simp
      with decimal_nonempty show ?thesis by blast
    next
      case False
      with m "1.prems" have
        "decimal (m div 10) @ [digit (m mod 10)] = decimal (n div 10) @ [digit (n mod 10)]"
        by (simp add: decimal.simps [of m] decimal.simps [of n])
      then have front: "decimal (m div 10) = decimal (n div 10)"
        and units: "digit (m mod 10) = digit (n mod 10)" by simp_all
      from "1.IH" [OF m front] have "m div 10 = n div 10" .
      moreover have "m mod 10 = n mod 10"
        by (rule digit_inj [OF _ _ units]) simp_all
      ultimately show ?thesis by (metis div_mult_mod_eq)
    qed
  qed
qed

lemma after_last_dash:
  assumes "xs @ CHR ''-'' # a = ys @ CHR ''-'' # b"
    and "CHR ''-'' \<notin> set a" and "CHR ''-'' \<notin> set b"
  shows "a = b"
proof -
  from assms(1) have "rev (xs @ CHR ''-'' # a) = rev (ys @ CHR ''-'' # b)" by simp
  then have eq: "rev a @ CHR ''-'' # rev xs = rev b @ CHR ''-'' # rev ys" by simp
  have "takeWhile (\<lambda>c. c \<noteq> CHR ''-'') (rev a @ CHR ''-'' # rev xs) = rev a"
    using assms(2) by (auto simp: takeWhile_tail)
  moreover have "takeWhile (\<lambda>c. c \<noteq> CHR ''-'') (rev b @ CHR ''-'' # rev ys) = rev b"
    using assms(3) by (auto simp: takeWhile_tail)
  ultimately have "rev a = rev b" using eq by simp
  then show ?thesis by simp
qed

lemma imported_id_inj: "imported_id env m = imported_id env n \<Longrightarrow> m = n"
proof -
  assume "imported_id env m = imported_id env n"
  then have "(''imported-'' @ decimal_int (Date_now env m)) @ CHR ''-'' # decimal m
           = (''imported-'' @ decimal_int (Date_now env n)) @ CHR ''-'' # decimal n"
    by (simp add: imported_id_def)
  from after_last_dash [OF this decimal_no_dash decimal_no_dash] show "m = n"
    by (rule decimal_inj)
qed

lemma generated_id_inj: "generated_id env m = generated_id env n \<Longrightarrow> m = n"
proof -
  assume "generated_id env m = generated_id env n"
  then have "(''card-'' @ decimal_int (Date_now env m)) @ CHR ''-'' # decimal m
           = (''card-'' @ decimal_int (Date_now env n)) @ CHR ''-'' # decimal n"
    by (simp add: generated_id_def)
  from after_last_dash [OF this decimal_no_dash decimal_no_dash] show "m = n"
    by (rule decimal_inj)
qed

lemma map_index_throwing_nth:
  assumes "map_index_throwing f i xs = Inr ys"
  shows "length ys = length xs \<and> (\<forall>n < length xs. f (xs ! n) (i + n) = Inr (ys ! n))"
  using assms
proof (induction xs arbitrary: i ys)
  case Nil
  then show ?case by simp
next
  case (Cons x xs)
  from Cons.prems obtain y ys' where
    y: "f x i = Inr y" and ys': "map_index_throwing f (Suc i) xs = Inr ys'" and ys: "ys = y # ys'"
    by (auto split: sum.splits)
  from Cons.IH [OF ys'] have
    IH: "length ys' = length xs" "\<forall>n < length xs. f (xs ! n) (Suc i + n) = Inr (ys' ! n)"
    by simp_all
  show ?case
  proof (intro conjI allI impI)
    show "length ys = length (x # xs)" using ys IH(1) by simp
  next
    fix n assume "n < length (x # xs)"
    then show "f ((x # xs) ! n) (i + n) = Inr (ys ! n)"
      using y ys IH(2) by (cases n) simp_all
  qed
qed

lemma map_index_length: "length (map_index f i xs) = length xs"
  by (induction xs arbitrary: i) simp_all

lemma map_index_nth: "n < length xs \<Longrightarrow> map_index f i xs ! n = f (xs ! n) (i + n)"
proof (induction xs arbitrary: i n)
  case Nil
  then show ?case by simp
next
  case (Cons x xs)
  then show ?case by (cases n) simp_all
qed

lemma import_card_id:
  assumes "import_card env c i = Inr c'"
  shows "property c' ''id'' = js_or (property c ''id'') (Str (imported_id env i))"
  using assms
  by (auto simp: import_card_def lookup_set_prop_same split: sum.splits)

lemma imported_id_nonempty: "imported_id env i \<noteq> []"
  by (simp add: imported_id_def)

lemma with_generated_id_id: "property (with_generated_id env c i) ''id'' = Str (generated_id env i)"
  by (simp add: with_generated_id_def lookup_set_prop_same)

lemma parseResponse_cards:
  assumes "parseResponse env response_text = Inr d"
  shows "\<exists>jsonText data gs. response_text = Some jsonText \<and> JSON_parse env jsonText = Some data
           \<and> property data ''cards'' = Arr gs
           \<and> property d ''cards'' = Arr (map_index (with_generated_id env) 0 gs)"
proof -
  from assms obtain jsonText where t: "response_text = Some jsonText" "jsonText \<noteq> []"
    by (cases response_text) (auto simp: parseResponse_def split: if_splits)
  with assms obtain data where data: "JSON_parse env jsonText = Some data"
    by (cases "JSON_parse env jsonText") (auto simp: parseResponse_def)
  with assms t have nn: "\<not> nullish data"
    by (auto simp: parseResponse_def get_prop_def split: if_splits)
  with assms t data obtain gs where gs: "property data ''cards'' = Arr gs"
    by (cases "property data ''cards''") (auto simp: parseResponse_def get_prop_def)
  with assms t data nn have "d = Obj [(''title'', property data ''title''),
                                (''cards'', Arr (map_index (with_generated_id env) 0 gs))]"
    by (auto simp: parseResponse_def get_prop_def)
  then have "property d ''cards'' = Arr (map_index (with_generated_id env) 0 gs)"
    by (simp add: lookup_def)
  with t data gs show ?thesis by blast
qed

section \<open>How an ingestion can end\<close>

lemma generated_id_nonempty: "generated_id env i \<noteq> []"
  by (simp add: generated_id_def)

lemma generated_ids_truthy:
  assumes "generateDeckFromList env c = Inr d"
  shows "ids_truthy d"
proof -
  from assms obtain response_text where "parseResponse env response_text = Inr d"
    by (cases "generateContent env c") (auto simp: generateDeckFromList_def)
  from parseResponse_cards [OF this] obtain gs where
    gs: "property d ''cards'' = Arr (map_index (with_generated_id env) 0 gs)" by blast
  have "list_all (\<lambda>c. truthy (property c ''id'')) (map_index (with_generated_id env) 0 gs)"
    by (simp add: list_all_length map_index_length map_index_nth with_generated_id_id
        generated_id_nonempty)
  with gs show ?thesis by (simp add: ids_truthy_def)
qed

lemma import_card_json_id:
  assumes "import_card_json env c i = Inr c'"
  shows "property c' ''id'' = js_or (property c ''id'') (Str (imported_id env i))"
  using assms
  by (auto simp: import_card_json_def get_prop_def lookup_set_prop_same split: if_splits)

lemma truthy_js_or_imported: "truthy (js_or v (Str (imported_id env i)))"
  by (simp add: js_or_def imported_id_nonempty)

lemma imported_ids_truthy:
  assumes "map_index_throwing (import_card env) 0 cs = Inr cs'"
  shows "ids_truthy (Obj (set_prop kvs ''cards'' (Arr cs')))"
proof -
  from map_index_throwing_nth [OF assms] have
    len: "length cs' = length cs"
    and each: "\<forall>n < length cs. import_card env (cs ! n) (0 + n) = Inr (cs' ! n)" by simp_all
  have "truthy (property (cs' ! n) ''id'')" if "n < length cs'" for n
  proof -
    from each that len have "import_card env (cs ! n) n = Inr (cs' ! n)" by simp
    from import_card_id [OF this] show ?thesis by (simp add: truthy_js_or_imported)
  qed
  then have "list_all (\<lambda>c. truthy (property c ''id'')) cs'"
    by (simp add: list_all_length)
  then show ?thesis by (simp add: ids_truthy_def lookup_set_prop_same)
qed

lemma imported_json_ids_truthy:
  assumes "map_index_throwing (import_card_json env) 0 cs = Inr cs'"
  shows "ids_truthy (Obj (set_prop kvs ''cards'' (Arr cs')))"
proof -
  from map_index_throwing_nth [OF assms] have
    len: "length cs' = length cs"
    and each: "\<forall>n < length cs. import_card_json env (cs ! n) (0 + n) = Inr (cs' ! n)"
    by simp_all
  have "truthy (property (cs' ! n) ''id'')" if "n < length cs'" for n
  proof -
    from each that len have "import_card_json env (cs ! n) n = Inr (cs' ! n)" by simp
    from import_card_json_id [OF this] show ?thesis by (simp add: truthy_js_or_imported)
  qed
  then have "list_all (\<lambda>c. truthy (property c ''id'')) cs'"
    by (simp add: list_all_length)
  then show ?thesis by (simp add: ids_truthy_def lookup_set_prop_same)
qed

lemma settles_throw: "settles w (Inl e, w)"
proof -
  have "w = w\<lparr>requests := requests w\<rparr>" by simp
  then have "\<exists>rs. (Inl e :: exn + bool, w) = (Inl e, w\<lparr>requests := rs\<rparr>)" by blast
  then show ?thesis unfolding settles_def by blast
qed

lemma settles_deliver:
  assumes "ids_truthy d"
  shows "settles w (Inr True, onDeckGenerated d w)"
proof -
  have "w = w\<lparr>requests := requests w\<rparr>" by simp
  then have "\<exists>rs. (Inr True :: exn + bool, onDeckGenerated d w)
                = (Inr True, onDeckGenerated d (w\<lparr>requests := rs\<rparr>))" by metis
  with assms show ?thesis unfolding settles_def by blast
qed

lemma settles_generate:
  "settles w (case call_generateDeckFromList env c w of
                (Inl e, w1) \<Rightarrow> (Inl e, w1)
              | (Inr d, w1) \<Rightarrow> (Inr True, onDeckGenerated d w1))"
proof (cases "generateDeckFromList env c")
  case (Inl e)
  then show ?thesis
    unfolding settles_def by (simp add: call_generateDeckFromList_def) blast
next
  case (Inr d)
  from generated_ids_truthy [OF this] Inr show ?thesis
    unfolding settles_def by (simp add: call_generateDeckFromList_def) blast
qed

lemma settles_text_path: "settles w (text_path env content w)"
  by (simp add: text_path_def settles_throw settles_generate)

lemma settles_import:
  "settles w (case map_index_throwing (import_card env) 0 cs of
                Inl e \<Rightarrow> (Inl e, w)
              | Inr cards' \<Rightarrow>
                  (Inr True, onDeckGenerated (Obj (set_prop (spread json) ''cards'' (Arr cards'))) w))"
proof (cases "map_index_throwing (import_card env) 0 cs")
  case (Inl e)
  then show ?thesis by (simp add: settles_throw)
next
  case (Inr cards')
  from imported_ids_truthy [OF this] Inr show ?thesis by (simp add: settles_deliver)
qed

lemma settles_deck_branch:
  "settles w (case property json ''cards'' of
             Arr cs \<Rightarrow>
               (case map_index_throwing (import_card env) 0 cs of
                  Inl e \<Rightarrow> (Inl e, w)
                | Inr cards' \<Rightarrow>
                    (Inr True,
                     onDeckGenerated (Obj (set_prop (spread json) ''cards'' (Arr cards'))) w))
           | _ \<Rightarrow> (Inl TypeError, w))"
  by (cases "property json ''cards''") (simp_all add: settles_throw settles_import)

lemma settles_try: "settles w (processContent_try env content w)"
  unfolding processContent_try_def Let_def
  by (simp add: settles_text_path settles_generate settles_deck_branch)

lemma processContent_cases:
  "(\<exists>d rs. ids_truthy d
       \<and> processContent env content w = (onDeckGenerated d (w\<lparr>requests := rs\<rparr>), True))
   \<or> (\<exists>rs. processContent env content w
             = (w\<lparr>requests := rs, error := Some processContent_message\<rparr>, False))"
proof -
  from settles_try [of w env content] consider
    (delivered) d rs where "ids_truthy d"
      "processContent_try env content w = (Inr True, onDeckGenerated d (w\<lparr>requests := rs\<rparr>))"
  | (thrown) e rs where
      "processContent_try env content w = (Inl e, w\<lparr>requests := rs\<rparr>)"
    unfolding settles_def by blast
  then show ?thesis
  proof cases
    case delivered
    then have "processContent env content w = (onDeckGenerated d (w\<lparr>requests := rs\<rparr>), True)"
      by (simp add: processContent_def)
    with delivered(1) show ?thesis by blast
  next
    case thrown
    then have "processContent env content w
                 = (w\<lparr>requests := rs, error := Some processContent_message\<rparr>, False)"
      by (simp add: processContent_def)
    then show ?thesis by blast
  qed
qed

lemma processContent_failure:
  assumes "\<not> snd (processContent env content w)"
  shows "app (fst (processContent env content w)) = app w
       \<and> delivered (fst (processContent env content w)) = delivered w
       \<and> error (fst (processContent env content w)) = Some processContent_message
       \<and> isLoading (fst (processContent env content w)) = isLoading w"
  using processContent_cases [of env content w] assms by auto

lemma begin_loading_frame:
  "app (begin_loading w) = app w" "delivered (begin_loading w) = delivered w"
  "requests (begin_loading w) = requests w" "inputValue (begin_loading w) = inputValue w"
  by (simp_all add: begin_loading_def)

lemma keeps: "keeps_or_loads a a"
  by (simp add: keeps_or_loads_def)

lemma processContent_app: "keeps_or_loads (app w) (app (fst (processContent env content w)))"
  using processContent_cases [of env content w]
  by (auto simp: keeps_or_loads_def onDeckGenerated_def)

lemma process_fetched_app:
  assumes "process_fetched env msg fetched w = (r, w1)"
  shows "keeps_or_loads (app w) (app w1)"
proof (cases fetched)
  case (Inl e)
  with assms show ?thesis by (auto simp: process_fetched_def keeps)
next
  case (Inr resp)
  show ?thesis
  proof (cases "ok resp")
    case False
    with Inr assms show ?thesis by (auto simp: process_fetched_def keeps)
  next
    case True
    show ?thesis
    proof (cases "body resp")
      case (Inl e)
      with Inr True assms show ?thesis by (auto simp: process_fetched_def keeps)
    next
      case fetched_body: (Inr fetched_text)
      with Inr True assms have "w1 = fst (processContent env fetched_text w)"
        by (auto simp: process_fetched_def split: prod.splits)
      with processContent_app [of w env fetched_text] show ?thesis by simp
    qed
  qed
qed

lemma handleManualSubmit_app: "keeps_or_loads (app w) (app (handleManualSubmit env w))"
proof (cases "trim env (inputValue w) = []")
  case True
  then show ?thesis by (simp add: handleManualSubmit_def keeps)
next
  case False
  show ?thesis
  proof (cases "generateDeckFromList env (inputValue w)")
    case (Inl e)
    with False show ?thesis
      by (simp add: handleManualSubmit_def call_generateDeckFromList_def begin_loading_def keeps)
  next
    case (Inr d)
    from generated_ids_truthy [OF this] Inr False show ?thesis
      by (auto simp: handleManualSubmit_def call_generateDeckFromList_def begin_loading_def
          onDeckGenerated_def keeps_or_loads_def)
  qed
qed

lemma handleUrlSubmit_app: "keeps_or_loads (app w) (app (handleUrlSubmit env sys w))"
proof (cases "trim env (inputValue w) = []")
  case True
  then show ?thesis by (simp add: handleUrlSubmit_def keeps)
next
  case False
  obtain r w1 where tried: "handleUrlSubmit_try env sys (begin_loading w) = (r, w1)"
    by (cases "handleUrlSubmit_try env sys (begin_loading w)")
  have "keeps_or_loads (app w) (app w1)"
  proof (cases "URL_valid sys (inputValue w)")
    case False
    with tried show ?thesis by (auto simp: handleUrlSubmit_try_def begin_loading_def keeps)
  next
    case True
    show ?thesis
    proof (cases "fetch sys (inputValue w)")
      case (Inl e)
      with True tried show ?thesis by (auto simp: handleUrlSubmit_try_def begin_loading_def keeps)
    next
      case (Inr resp)
      with True tried have
        "process_fetched env (''HTTP error! status: '' @ decimal (status resp)) (Inr resp)
           (begin_loading w) = (r, w1)"
        by (simp add: handleUrlSubmit_try_def begin_loading_frame)
      from process_fetched_app [OF this] show ?thesis
        by (simp add: begin_loading_frame)
    qed
  qed
  with False tried show ?thesis
    by (cases r) (simp_all add: handleUrlSubmit_def)
qed

lemma fetchDriveFile_app:
  "keeps_or_loads (app w) (app (fetchDriveFile env sys fileId accessToken w))"
proof -
  obtain r w1 where tried: "fetchDriveFile_try env sys fileId accessToken w = (r, w1)"
    by (cases "fetchDriveFile_try env sys fileId accessToken w")
  then have "process_fetched env ''Failed to download file''
      (fetch_authorized sys fileId accessToken) w = (r, w1)"
    by (simp add: fetchDriveFile_try_def)
  from process_fetched_app [OF this] tried show ?thesis
    by (cases r) (simp_all add: fetchDriveFile_def)
qed

lemma handleFileUpload_app: "keeps_or_loads (app w) (app (handleFileUpload env chosen w))"
proof (cases chosen)
  case None
  then show ?thesis by (simp add: handleFileUpload_def keeps)
next
  case (Some r)
  show ?thesis
  proof (cases r)
    case ReadFailed
    with Some show ?thesis by (simp add: handleFileUpload_def begin_loading_def keeps)
  next
    case (Loaded content)
    with Some processContent_app [of "begin_loading w" env content] show ?thesis
      by (simp add: handleFileUpload_def begin_loading_frame)
  qed
qed

lemma perform_app: "keeps_or_loads (app w) (app (perform env sys act w))"
proof (cases act)
  case (ProcessContent content)
  then show ?thesis by (simp add: processContent_app)
next
  case ManualSubmit
  then show ?thesis by (simp add: handleManualSubmit_app)
next
  case UrlSubmit
  then show ?thesis by (simp add: handleUrlSubmit_app)
next
  case (FileUpload chosen)
  then show ?thesis by (simp add: handleFileUpload_app)
next
  case (DriveFile fileId accessToken)
  then show ?thesis by (simp add: fetchDriveFile_app)
qed

lemma processJsonContent_app:
  "keeps_or_loads (app w) (app (fst (processJsonContent env content w)))"
proof (cases "JSON_parse env content")
  case None
  then show ?thesis
    by (simp add: processJsonContent_def processJsonContent_try_def keeps)
next
  case (Some json)
  show ?thesis
  proof (cases "isValidDeck json")
    case True
    show ?thesis
    proof (cases "property json ''cards''")
      case (Arr cs)
      show ?thesis
      proof (cases "map_index_throwing (import_card_json env) 0 cs")
        case (Inl e)
        with Some True Arr show ?thesis
          by (simp add: processJsonContent_def processJsonContent_try_def keeps)
      next
        case (Inr cs')
        from imported_json_ids_truthy [OF this] Some True Arr Inr show ?thesis
          by (auto simp: processJsonContent_def processJsonContent_try_def onDeckGenerated_def
              keeps_or_loads_def)
      qed
    qed (use Some True in \<open>simp_all add: processJsonContent_def processJsonContent_try_def keeps\<close>)
  next
    case False
    show ?thesis
    proof (cases "isStringArray json")
      case no_list: False
      with Some False show ?thesis
        by (simp add: processJsonContent_def processJsonContent_try_def keeps)
    next
      case True
      show ?thesis
      proof (cases "generateDeckFromList env (joined json)")
        case (Inl e)
        with Some False True show ?thesis
          by (simp add: processJsonContent_def processJsonContent_try_def
              call_generateDeckFromList_def keeps)
      next
        case (Inr d)
        from generated_ids_truthy [OF this] Some False True Inr show ?thesis
          by (auto simp: processJsonContent_def processJsonContent_try_def
              call_generateDeckFromList_def onDeckGenerated_def keeps_or_loads_def)
      qed
    qed
  qed
qed

section \<open>Navigation\<close>

lemma handleNext_deck: "deck (handleNext a) = deck a"
  by (simp add: handleNext_def split: option.splits)

lemma handlePrev_deck: "deck (handlePrev a) = deck a"
  by (simp add: handlePrev_def split: option.splits)

lemma handleNext_funpow_deck: "deck ((handleNext ^^ k) a) = deck a"
  by (induction k) (simp_all add: handleNext_deck)

lemma handlePrev_funpow_deck: "deck ((handlePrev ^^ k) a) = deck a"
  by (induction k) (simp_all add: handlePrev_deck)

lemma rem_nonneg:
  fixes a n :: int
  assumes "0 \<le> a" and "0 < n"
  shows "sgn a * (\<bar>a\<bar> mod \<bar>n\<bar>) = a mod n"
proof (cases "a = 0")
  case True
  then show ?thesis by simp
next
  case False
  with assms have "sgn a = 1" and "\<bar>a\<bar> = a" and "\<bar>n\<bar> = n" by simp_all
  then show ?thesis by simp
qed

lemma index_rem_nonneg:
  assumes "0 \<le> a" and "0 < n"
  shows "index_rem (Index a) n = Index (a mod n)"
  using assms rem_nonneg [OF assms] by simp

lemma handleNext_index:
  assumes "deck a = Some d" and "cards_length d = n" and "0 < n"
    and "currentCardIndex a = Index i" and "0 \<le> i"
  shows "currentCardIndex (handleNext a) = Index ((i + 1) mod n)"
proof -
  have "0 \<le> i + 1" using assms(5) by simp
  then have "sgn (i + 1) * (\<bar>i + 1\<bar> mod \<bar>n\<bar>) = (i + 1) mod n"
    using assms(3) by (rule rem_nonneg)
  with assms show ?thesis
    by (simp add: handleNext_def)
qed

lemma handlePrev_index:
  assumes "deck a = Some d" and "cards_length d = n" and "0 < n"
    and "currentCardIndex a = Index i" and "0 \<le> i" and "i < n"
  shows "currentCardIndex (handlePrev a) = Index ((i - 1) mod n)"
proof -
  have nonneg: "0 \<le> i - 1 + n" using assms by simp
  have "sgn (i - 1 + n) * (\<bar>i - 1 + n\<bar> mod \<bar>n\<bar>) = (i - 1 + n) mod n"
    using nonneg assms(3) by (rule rem_nonneg)
  moreover have "(i - 1 + n) mod n = (i - 1) mod n" by simp
  ultimately show ?thesis using assms
    by (simp add: handlePrev_def)
qed

lemma handleNext_funpow_index:
  assumes "deck a = Some d" and "cards_length d = n" and "0 < n"
    and "currentCardIndex a = Index i" and "0 \<le> i" and "i < n"
  shows "currentCardIndex ((handleNext ^^ k) a) = Index ((i + int k) mod n)"
proof (induction k)
  case 0
  from assms show ?case by simp
next
  case (Suc k)
  have d: "deck ((handleNext ^^ k) a) = Some d"
    using assms(1) by (simp add: handleNext_funpow_deck)
  have nonneg: "0 \<le> (i + int k) mod n"
    using assms(3) by simp
  have "currentCardIndex (handleNext ((handleNext ^^ k) a)) = Index (((i + int k) mod n + 1) mod n)"
    by (rule handleNext_index [OF d assms(2) assms(3) Suc.IH nonneg])
  moreover have "((i + int k) mod n + 1) mod n = (i + int k + 1) mod n"
    by (rule mod_add_left_eq)
  moreover have "i + int k + 1 = i + int (Suc k)"
    by simp
  ultimately show ?case by simp
qed

lemma handlePrev_funpow_index:
  assumes "deck a = Some d" and "cards_length d = n" and "0 < n"
    and "currentCardIndex a = Index i" and "0 \<le> i" and "i < n"
  shows "currentCardIndex ((handlePrev ^^ k) a) = Index ((i - int k) mod n)"
proof (induction k)
  case 0
  from assms show ?case by simp
next
  case (Suc k)
  have d: "deck ((handlePrev ^^ k) a) = Some d"
    using assms(1) by (simp add: handlePrev_funpow_deck)
  have nonneg: "0 \<le> (i - int k) mod n" and below: "(i - int k) mod n < n"
    using assms(3) by simp_all
  have "currentCardIndex (handlePrev ((handlePrev ^^ k) a)) = Index (((i - int k) mod n - 1) mod n)"
    by (rule handlePrev_index [OF d assms(2) assms(3) Suc.IH nonneg below])
  moreover have "((i - int k) mod n - 1) mod n = (i - int k - 1) mod n"
    by (rule mod_diff_left_eq)
  moreover have "i - int k - 1 = i - int (Suc k)"
    by simp
  ultimately show ?case by simp
qed

text \<open>
  C5. For a loaded deck with N cards, N at least 1, and a current index i that denotes one
  of its cards (0 \<le> i < N), N applications of \<^verbatim>\<open>handleNext\<close> bring the index back
  to i, and so do N applications of \<^verbatim>\<open>handlePrev\<close>.
\<close>

theorem next_prev_full_cycle:
  assumes "deck a = Some d" and "property d ''cards'' = Arr cs" and "1 \<le> length cs"
    and "currentCardIndex a = Index i" and "0 \<le> i" and "i < int (length cs)"
  shows "currentCardIndex ((handleNext ^^ length cs) a) = Index i
       \<and> currentCardIndex ((handlePrev ^^ length cs) a) = Index i"
proof -
  let ?n = "int (length cs)"
  have len: "cards_length d = ?n" using assms(2) by (simp add: cards_length_def)
  have pos: "0 < ?n" using assms(3) by (cases cs) simp_all
  have "currentCardIndex ((handleNext ^^ length cs) a) = Index ((i + ?n) mod ?n)"
    by (rule handleNext_funpow_index [OF assms(1) len pos assms(4) assms(5) assms(6)])
  moreover have "currentCardIndex ((handlePrev ^^ length cs) a) = Index ((i - ?n) mod ?n)"
    by (rule handlePrev_funpow_index [OF assms(1) len pos assms(4) assms(5) assms(6)])
  moreover have "(i + ?n) mod ?n = i" and "(i - ?n) mod ?n = i"
    using assms(5) assms(6) by simp_all
  ultimately show ?thesis by simp
qed

theorem next_prev_full_cycle_witness:
  "deck second_card_flipped = Some three_card_deck
   \<and> property three_card_deck ''cards'' = Arr three_cards
   \<and> 1 \<le> length three_cards
   \<and> currentCardIndex second_card_flipped = Index 1
   \<and> (0::int) \<le> 1 \<and> 1 < int (length three_cards)
   \<and> currentCardIndex ((handleNext ^^ length three_cards) second_card_flipped) = Index 1
   \<and> currentCardIndex ((handlePrev ^^ length three_cards) second_card_flipped) = Index 1"
proof -
  have h1: "deck second_card_flipped = Some three_card_deck"
    by (simp add: second_card_flipped_def)
  have h2: "property three_card_deck ''cards'' = Arr three_cards"
    by (simp add: three_card_deck_def lookup_def)
  have h3: "1 \<le> length three_cards"
    by (simp add: three_cards_def)
  have h4: "currentCardIndex second_card_flipped = Index 1"
    by (simp add: second_card_flipped_def)
  have h5: "(0::int) \<le> 1" by simp
  have h6: "1 < int (length three_cards)"
    by (simp add: three_cards_def)
  from next_prev_full_cycle [OF h1 h2 h3 h4 h5 h6] h1 h2 h3 h4 h6
  show ?thesis by simp
qed

text \<open>
  The index of every reachable state denotes a card of the loaded deck, when the deck has
  one: the hypothesis of C5 holds throughout a session.
\<close>

lemma rem_range:
  fixes a n :: int
  assumes "0 \<le> a" and "0 < n"
  shows "\<exists>j. index_rem (Index a) n = Index j \<and> 0 \<le> j \<and> j < n"
proof -
  have "index_rem (Index a) n = Index (a mod n)"
    using assms by (rule index_rem_nonneg)
  moreover have "0 \<le> a mod n" and "a mod n < n"
    using assms(2) by simp_all
  ultimately show ?thesis by blast
qed

lemma reachable_index_in_range:
  assumes "reachable a"
  shows "(deck a = None \<longrightarrow> currentCardIndex a = Index 0)
       \<and> (\<forall>d. deck a = Some d \<longrightarrow> 0 < cards_length d \<longrightarrow>
              (\<exists>i. currentCardIndex a = Index i \<and> 0 \<le> i \<and> i < cards_length d))"
  using assms
proof (induction rule: reachable.induct)
  case start
  show ?case by (simp add: initial_state_def)
next
  case (generated a d)
  show ?case by (simp add: handleDeckGenerated_def)
next
  case (next_card a)
  show ?case
  proof (cases "deck a")
    case None
    with next_card.IH show ?thesis by (simp add: handleNext_def)
  next
    case (Some d)
    show ?thesis
    proof (cases "0 < cards_length d")
      case True
      with next_card.IH Some obtain i where
        i: "currentCardIndex a = Index i" "0 \<le> i" "i < cards_length d" by auto
      from i(2) have "0 \<le> i + 1" by simp
      from rem_range [OF this True] i(1) Some show ?thesis
        by (simp add: handleNext_def del: index_rem.simps)
    next
      case False
      with Some show ?thesis by (simp add: handleNext_def)
    qed
  qed
next
  case (prev_card a)
  show ?case
  proof (cases "deck a")
    case None
    with prev_card.IH show ?thesis by (simp add: handlePrev_def)
  next
    case (Some d)
    show ?thesis
    proof (cases "0 < cards_length d")
      case True
      with prev_card.IH Some obtain i where
        i: "currentCardIndex a = Index i" "0 \<le> i" "i < cards_length d" by auto
      from i(2) True have "0 \<le> i + - 1 + cards_length d" by simp
      from rem_range [OF this True] i(1) Some show ?thesis
        by (simp add: handlePrev_def del: index_rem.simps)
    next
      case False
      with Some show ?thesis by (simp add: handlePrev_def)
    qed
  qed
next
  case (flip a)
  then show ?case by (simp add: handleFlip_def)
next
  case (reset a)
  show ?case by (simp add: resetDeck_def)
next
  case (toggle a)
  then show ?case by (simp add: toggleScriptMode_def)
qed

section \<open>Flipping\<close>

lemma reachable_unloaded_not_flipped:
  assumes "reachable a" and "deck a = None"
  shows "\<not> isFlipped a"
  using assms
proof (induction rule: reachable.induct)
  case start
  show ?case by (simp add: initial_state_def)
next
  case (generated a d)
  then show ?case by (simp add: handleDeckGenerated_def)
next
  case (next_card a)
  then show ?case by (simp add: handleNext_def split: option.splits)
next
  case (prev_card a)
  then show ?case by (simp add: handlePrev_def split: option.splits)
next
  case (flip a)
  then show ?case by (simp add: handleFlip_def)
next
  case (reset a)
  show ?case by (simp add: resetDeck_def)
next
  case (toggle a)
  then show ?case by (simp add: toggleScriptMode_def)
qed

lemma loaded_next_prev_unflip:
  assumes "deck a = Some d"
  shows "\<not> isFlipped (handleNext a) \<and> \<not> isFlipped (handlePrev a)"
  using assms by (simp add: handleNext_def handlePrev_def)

text \<open>
  C6. Two flips in a row restore the state, the flip state with it. From every state the
  application can reach, \<^verbatim>\<open>handleNext\<close> and \<^verbatim>\<open>handlePrev\<close> leave the card
  unflipped, whatever the flip state was.
\<close>

theorem flip_twice_and_navigation_unflips:
  assumes "reachable a"
  shows "handleFlip (handleFlip a) = a
       \<and> isFlipped (handleFlip (handleFlip a)) = isFlipped a
       \<and> isFlipped (handleNext a) = False
       \<and> isFlipped (handlePrev a) = False"
proof (cases "deck a")
  case None
  with assms have "\<not> isFlipped a" by (rule reachable_unloaded_not_flipped)
  with None show ?thesis
    by (simp add: handleFlip_def handleNext_def handlePrev_def)
next
  case (Some d)
  from loaded_next_prev_unflip [OF Some] show ?thesis
    by (simp add: handleFlip_def)
qed

theorem flip_twice_and_navigation_unflips_witness:
  "reachable (handleFlip (handleDeckGenerated three_card_deck initial_state))
   \<and> isFlipped (handleFlip (handleDeckGenerated three_card_deck initial_state)) = True
   \<and> isFlipped (handleNext (handleFlip (handleDeckGenerated three_card_deck initial_state))) = False
   \<and> isFlipped (handlePrev (handleFlip (handleDeckGenerated three_card_deck initial_state))) = False
   \<and> handleFlip (handleFlip (handleFlip (handleDeckGenerated three_card_deck initial_state)))
       = handleFlip (handleDeckGenerated three_card_deck initial_state)"
proof -
  let ?a = "handleDeckGenerated three_card_deck initial_state"
  have "reachable ?a" by (rule reachable.generated [OF reachable.start])
  moreover have "deck ?a \<noteq> None" by (simp add: handleDeckGenerated_def)
  ultimately have r: "reachable (handleFlip ?a)" by (rule reachable.flip)
  have "isFlipped (handleFlip ?a) = True"
    by (simp add: handleFlip_def handleDeckGenerated_def initial_state_def)
  with r flip_twice_and_navigation_unflips [OF r] show ?thesis by simp
qed

section \<open>Script preference\<close>

text \<open>
  C9. \<^verbatim>\<open>toggleScriptMode\<close> switches the script preference to the other of the two
  modes and leaves the card index, the deck and the flip state as they were; applied twice
  it restores the state.
\<close>

theorem toggle_script_frame:
  "scriptMode (toggleScriptMode a)
     = (case scriptMode a of Simplified \<Rightarrow> Traditional | Traditional \<Rightarrow> Simplified)
   \<and> scriptMode (toggleScriptMode a) \<noteq> scriptMode a
   \<and> currentCardIndex (toggleScriptMode a) = currentCardIndex a
   \<and> deck (toggleScriptMode a) = deck a
   \<and> isFlipped (toggleScriptMode a) = isFlipped a
   \<and> toggleScriptMode (toggleScriptMode a) = a"
  by (cases "scriptMode a") (simp_all add: toggleScriptMode_def)

section \<open>Export and import\<close>









text \<open>The application state of a session is one of the reachable states of the review session.\<close>

lemma loads_reachable:
  assumes "reachable a" and "keeps_or_loads a a'"
  shows "reachable a'"
  using assms by (auto simp: keeps_or_loads_def intro: reachable.generated)

lemma session_reachable:
  assumes "session w"
  shows "reachable (app w)"
  using assms
proof (induction rule: session.induct)
  case start
  show ?case by (simp add: initial_world_def reachable.start)
next
  case (ingest w env sys act)
  from ingest.IH perform_app show ?case by (rule loads_reachable)
next
  case (ingest_json w env content)
  from ingest_json.IH processJsonContent_app show ?case by (rule loads_reachable)
next
  case (component w s l m)
  then show ?case by simp
next
  case (next_card w)
  then show ?case by (simp add: reachable.next_card)
next
  case (prev_card w)
  then show ?case by (simp add: reachable.prev_card)
next
  case (flip w)
  then show ?case by (simp add: reachable.flip)
next
  case (reset w)
  then show ?case by (simp add: reachable.reset)
next
  case (toggle w)
  then show ?case by (simp add: reachable.toggle)
qed




section \<open>The deck schema validator\<close>

lemma isValidDeck_iff:
  "isValidDeck v = (\<exists>kvs t cs. v = Obj kvs \<and> lookup kvs ''title'' = Str t \<and> lookup kvs ''cards'' = Arr cs)"
proof (cases v)
  case (Obj kvs)
  have t: "typeof (lookup kvs ''title'') = T_string \<longleftrightarrow> (\<exists>t. lookup kvs ''title'' = Str t)"
    by (cases "lookup kvs ''title''") simp_all
  have c: "isArray (lookup kvs ''cards'') \<longleftrightarrow> (\<exists>cs. lookup kvs ''cards'' = Arr cs)"
    by (cases "lookup kvs ''cards''") simp_all
  from Obj t c show ?thesis by (auto simp: isValidDeck_def)
qed (simp_all add: isValidDeck_def)

text \<open>
  C3 (amended). \<^verbatim>\<open>isValidDeck\<close> accepts exactly the objects that hold a string under
  \<^verbatim>\<open>title\<close> and an array under \<^verbatim>\<open>cards\<close>; it does not look into the cards.
  Every value of the canonical deck shape is therefore accepted.
\<close>

theorem validator_checks_title_and_cards_only:
  "isValidDeck v
     = (\<exists>kvs t cs. v = Obj kvs \<and> lookup kvs ''title'' = Str t \<and> lookup kvs ''cards'' = Arr cs)
   \<and> (spec_deck_shape v \<longrightarrow> isValidDeck v)"
proof -
  have "isValidDeck v" if "spec_deck_shape v"
    using that
    by (cases v) (auto simp: spec_deck_shape_def has_string_def isValidDeck_def split: jsval.splits)
  with isValidDeck_iff [of v] show ?thesis by blast
qed

theorem validator_checks_title_and_cards_only_witness:
  "spec_deck_shape (deck_json fruit_deck) \<and> isValidDeck (deck_json fruit_deck)
   \<and> isValidDeck (deck_json fruit_deck)
      = (\<exists>kvs t cs. deck_json fruit_deck = Obj kvs \<and> lookup kvs ''title'' = Str t
           \<and> lookup kvs ''cards'' = Arr cs)"
proof -
  have "spec_deck_shape (deck_json fruit_deck)"
    by (simp add: spec_deck_shape_def spec_card_shape_def has_string_def deck_json_def
        card_json_def example_json_def fruit_deck_def lookup_def)
  with validator_checks_title_and_cards_only [of "deck_json fruit_deck"] show ?thesis by blast
qed

text \<open>
  A deck whose card has none of simplified, traditional, pinyin and examples is accepted
  all the same.
\<close>

theorem validator_accepts_incomplete_cards_counterexample:
  "isValidDeck bare_card_deck \<and> \<not> spec_deck_shape bare_card_deck"
  by (simp add: bare_card_deck_def isValidDeck_def spec_deck_shape_def spec_card_shape_def
      has_string_def lookup_def)

section \<open>Legacy examples\<close>

lemma legacy_example_not_nullish: "legacy_example ex s \<Longrightarrow> \<not> nullish ex"
  by (cases ex) (simp_all add: legacy_example_def)

lemma normalize_legacy_example:
  assumes "legacy_example ex s"
  shows "\<exists>ex'. normalize_example ex k = Inr ex'
            \<and> property ex' ''simplified'' = Str s \<and> property ex' ''traditional'' = Str s"
  using assms legacy_example_not_nullish [OF assms]
  by (simp add: normalize_example_def legacy_example_def js_or_def lookup_def)

lemma normalize_legacy_examples:
  assumes "list_all2 legacy_example exs ss"
  shows "\<exists>exs'. map_index_throwing normalize_example i exs = Inr exs'
            \<and> map (\<lambda>ex. property ex ''simplified'') exs' = map Str ss
            \<and> map (\<lambda>ex. property ex ''traditional'') exs' = map Str ss"
  using assms
proof (induction exs ss arbitrary: i rule: list_all2_induct)
  case Nil
  show ?case by simp
next
  case (Cons ex exs s ss)
  from normalize_legacy_example [OF Cons.hyps(1)] obtain ex' where
    ex': "normalize_example ex i = Inr ex'" "property ex' ''simplified'' = Str s"
         "property ex' ''traditional'' = Str s" by blast
  from Cons.IH [of "Suc i"] obtain exs' where
    exs': "map_index_throwing normalize_example (Suc i) exs = Inr exs'"
          "map (\<lambda>ex. property ex ''simplified'') exs' = map Str ss"
          "map (\<lambda>ex. property ex ''traditional'') exs' = map Str ss" by blast
  from ex' exs' show ?case by simp
qed

text \<open>
  C4. For a card whose \<^verbatim>\<open>examples\<close> all carry no \<^verbatim>\<open>simplified\<close> and no
  \<^verbatim>\<open>traditional\<close> property but a string under \<^verbatim>\<open>chinese\<close>, the card callback
  of \<^verbatim>\<open>processContent\<close> does not throw, and in the examples of the card it returns
  \<^verbatim>\<open>simplified\<close> and \<^verbatim>\<open>traditional\<close> both hold the \<^verbatim>\<open>chinese\<close> string of
  the example at the same position.
\<close>

theorem legacy_chinese_fills_both_scripts:
  assumes "property c ''examples'' = Arr exs" and "list_all2 legacy_example exs ss"
  shows "\<exists>c' exs'. import_card env c i = Inr c'
           \<and> property c' ''examples'' = Arr exs'
           \<and> map (\<lambda>ex. property ex ''simplified'') exs' = map Str ss
           \<and> map (\<lambda>ex. property ex ''traditional'') exs' = map Str ss
           \<and> map (\<lambda>ex. property ex ''simplified'') exs'
               = map (\<lambda>ex. property ex ''chinese'') exs"
proof -
  have nn: "\<not> nullish c" using assms(1) by (cases c) simp_all
  from normalize_legacy_examples [OF assms(2), of 0] obtain exs' where
    exs': "map_index_throwing normalize_example 0 exs = Inr exs'"
          "map (\<lambda>ex. property ex ''simplified'') exs' = map Str ss"
          "map (\<lambda>ex. property ex ''traditional'') exs' = map Str ss" by blast
  have ch: "map (\<lambda>ex. property ex ''chinese'') exs = map Str ss"
    using assms(2) by (induction exs ss rule: list_all2_induct) (simp_all add: legacy_example_def)
  have "normalize_examples c = Inr (Arr exs')"
    using nn assms(1) exs'(1) by (simp add: normalize_examples_def get_prop_def)
  then have "import_card env c i
      = Inr (Obj (set_prop (set_prop (spread c) ''examples'' (Arr exs')) ''id''
                (js_or (property c ''id'') (Str (imported_id env i)))))"
    by (simp add: import_card_def)
  moreover have "property (Obj (set_prop (set_prop (spread c) ''examples'' (Arr exs')) ''id''
                (js_or (property c ''id'') (Str (imported_id env i))))) ''examples'' = Arr exs'"
    by (simp add: lookup_set_prop_same lookup_set_prop_other)
  ultimately show ?thesis using exs'(2,3) ch by auto
qed

theorem legacy_chinese_fills_both_scripts_witness:
  "property legacy_card ''examples''
     = Arr [Obj [(''chinese'', Str ''z1''), (''english'', Str ''I eat apples'')],
            Obj [(''chinese'', Str ''z2''), (''pinyin'', Str ''p2'')]]
   \<and> list_all2 legacy_example
        [Obj [(''chinese'', Str ''z1''), (''english'', Str ''I eat apples'')],
         Obj [(''chinese'', Str ''z2''), (''pinyin'', Str ''p2'')]] [''z1'', ''z2'']
   \<and> (\<exists>c' exs'. import_card sample_env legacy_card 0 = Inr c'
         \<and> property c' ''examples'' = Arr exs'
         \<and> map (\<lambda>ex. property ex ''simplified'') exs' = [Str ''z1'', Str ''z2'']
         \<and> map (\<lambda>ex. property ex ''traditional'') exs' = [Str ''z1'', Str ''z2''])"
proof -
  have h1: "property legacy_card ''examples''
     = Arr [Obj [(''chinese'', Str ''z1''), (''english'', Str ''I eat apples'')],
            Obj [(''chinese'', Str ''z2''), (''pinyin'', Str ''p2'')]]"
    by (simp add: legacy_card_def lookup_def)
  have h2: "list_all2 legacy_example
        [Obj [(''chinese'', Str ''z1''), (''english'', Str ''I eat apples'')],
         Obj [(''chinese'', Str ''z2''), (''pinyin'', Str ''p2'')]] [''z1'', ''z2'']"
    by (simp add: legacy_example_def lookup_def)
  from legacy_chinese_fills_both_scripts [OF h1 h2, of sample_env 0] h1 h2
  show ?thesis by auto
qed

section \<open>Blank content\<close>

text \<open>
  C10. For a content that is blank (empty, or nothing but white space: the
  \<^verbatim>\<open>trim\<close> of the runtime leaves the empty text) and that the runtime does not
  parse to a deck or to an array of strings (it throws on such a text),
  \<^verbatim>\<open>processContent\<close> sets the error message and returns false; nothing is sent to
  the generation service, and \<^verbatim>\<open>onDeckGenerated\<close> is not called.
\<close>

theorem blank_content_is_rejected_without_request:
  assumes empty: "blank env content"
    and unparsed: "JSON_parse env content = None
                 \<or> (\<exists>j. JSON_parse env content = Some j \<and> \<not> isValidDeck j \<and> \<not> isStringArray j)"
  shows "processContent env content w = (w\<lparr>error := Some processContent_message\<rparr>, False)
       \<and> requests (fst (processContent env content w)) = requests w
       \<and> delivered (fst (processContent env content w)) = delivered w"
proof -
  have "text_path env content w = (Inl (Error ''Content is empty''), w)"
    using empty by (simp add: text_path_def)
  with unparsed have "processContent_try env content w = (Inl (Error ''Content is empty''), w)"
    by (auto simp: processContent_try_def)
  then show ?thesis by (simp add: processContent_def)
qed

theorem blank_content_is_rejected_without_request_witness:
  "blank sample_env blank_text
   \<and> JSON_parse sample_env blank_text = None
   \<and> processContent sample_env blank_text initial_world
       = (initial_world\<lparr>error := Some processContent_message\<rparr>, False)
   \<and> requests (fst (processContent sample_env blank_text initial_world)) = []
   \<and> delivered (fst (processContent sample_env blank_text initial_world)) = []"
proof -
  have h1: "blank sample_env blank_text"
    by (simp add: blank_def sample_env_def sample_trim_def)
  have h2: "JSON_parse sample_env blank_text = None"
    by (simp add: sample_env_def sample_parse_def fruit_text_def blank_id_text_def answer_text_def
        text_of_lines_def blank_text_def)
  have h3: "requests initial_world = []" "delivered initial_world = []"
    by (simp_all add: initial_world_def)
  from blank_content_is_rejected_without_request [OF h1 disjI1 [OF h2], of initial_world] h1 h2 h3
  show ?thesis by simp
qed

section \<open>An object without cards\<close>

lemma obj_not_string_array: "\<not> isStringArray (Obj kvs)"
  by (simp add: isStringArray_def)

text \<open>
  C2 (amended). Let the content parse to an object that holds no array under
  \<^verbatim>\<open>cards\<close>. The upload-only importer \<^verbatim>\<open>processJsonContent\<close> sets the
  "Invalid JSON format" message and returns false, and sends nothing to the generation
  service. The unified \<^verbatim>\<open>processContent\<close> goes on to its step 2: the content, which
  is not blank, is sent to the generation service as a word list; the outcome of
  \<^verbatim>\<open>processContent\<close> is the outcome of that generation.
\<close>

theorem object_without_cards_two_importers:
  assumes parsed: "JSON_parse env content = Some (Obj kvs)"
    and no_cards: "\<not> isArray (lookup kvs ''cards'')"
  shows "processJsonContent env content w = (w\<lparr>error := Some invalid_format_message\<rparr>, False)
       \<and> (\<not> blank env content \<longrightarrow>
            processContent env content w =
              (case generateDeckFromList env content of
                 Inl e \<Rightarrow>
                   (w\<lparr>requests := requests w @ [content], error := Some processContent_message\<rparr>,
                    False)
               | Inr d \<Rightarrow> (onDeckGenerated d (w\<lparr>requests := requests w @ [content]\<rparr>), True)))"
proof -
  have invalid: "\<not> isValidDeck (Obj kvs)"
    using no_cards by (simp add: isValidDeck_def)
  have old: "processJsonContent env content w = (w\<lparr>error := Some invalid_format_message\<rparr>, False)"
    using parsed invalid
    by (simp add: processJsonContent_def processJsonContent_try_def obj_not_string_array)
  have new: "processContent env content w =
              (case generateDeckFromList env content of
                 Inl e \<Rightarrow>
                   (w\<lparr>requests := requests w @ [content], error := Some processContent_message\<rparr>,
                    False)
               | Inr d \<Rightarrow> (onDeckGenerated d (w\<lparr>requests := requests w @ [content]\<rparr>), True))"
    if "\<not> blank env content"
  proof -
    from that parsed invalid show ?thesis
      by (simp add: processContent_def processContent_try_def obj_not_string_array text_path_def
          call_generateDeckFromList_def split: sum.splits)
  qed
  from old new show ?thesis by blast
qed


theorem object_without_cards_two_importers_witness:
  "JSON_parse sample_env ''{}'' = Some (Obj [])
   \<and> \<not> isArray (lookup [] ''cards'')
   \<and> \<not> blank sample_env ''{}''
   \<and> processJsonContent sample_env ''{}'' initial_world
       = (initial_world\<lparr>error := Some invalid_format_message\<rparr>, False)
   \<and> processContent sample_env ''{}'' initial_world
       = (onDeckGenerated generated_deck (initial_world\<lparr>requests := [''{}'']\<rparr>), True)"
proof -
  have h2: "\<not> isArray (lookup [] ''cards'')" by (simp add: lookup_def)
  have h3: "\<not> blank sample_env ''{}''"
    by (rule sample_braces_not_blank)
  have rq: "requests initial_world = []" by (simp add: initial_world_def)
  from object_without_cards_two_importers [OF sample_parse_braces h2, of initial_world]
    sample_parse_braces h2 h3
  show ?thesis by (simp add: sample_generate_braces rq)
qed

text \<open>
  The content \<^verbatim>\<open>{}\<close> parses to an object without \<^verbatim>\<open>cards\<close>;
  \<^verbatim>\<open>processContent\<close> requests a generation for it, and here delivers the deck that
  the service answers with.
\<close>

theorem object_without_cards_reaches_generation_counterexample:
  "JSON_parse sample_env ''{}'' = Some (Obj [])
   \<and> property (Obj []) ''cards'' = Undefined
   \<and> processContent sample_env ''{}'' initial_world
       = (onDeckGenerated generated_deck (initial_world\<lparr>requests := [''{}'']\<rparr>), True)
   \<and> requests (fst (processContent sample_env ''{}'' initial_world)) = [''{}'']
   \<and> error (fst (processContent sample_env ''{}'' initial_world)) = None"
proof -
  have c2: "property (Obj []) ''cards'' = Undefined" by (simp add: lookup_def)
  have c3: "processContent sample_env ''{}'' initial_world
       = (onDeckGenerated generated_deck (initial_world\<lparr>requests := [''{}'']\<rparr>), True)"
    unfolding processContent_def processContent_try_def
    by (simp add: sample_parse_braces) (simp add: isValidDeck_def isStringArray_def lookup_def
        text_path_def sample_braces_not_blank call_generateDeckFromList_def sample_generate_braces
        initial_world_def)
  have c4: "requests (fst (processContent sample_env ''{}'' initial_world)) = [''{}'']"
    unfolding c3 by (simp add: onDeckGenerated_def)
  have c5: "error (fst (processContent sample_env ''{}'' initial_world)) = None"
    unfolding c3 by (simp add: onDeckGenerated_def initial_world_def)
  from sample_parse_braces c2 c3 c4 c5 show ?thesis by blast
qed

section \<open>Failed ingestion\<close>

lemma process_fetched_unsuccessful:
  assumes "process_fetched env msg fetched w = (r, w1)" and "unsuccessful (r, w1)"
  shows "app w1 = app w \<and> delivered w1 = delivered w
       \<and> (case r of Inl e \<Rightarrow> True | Inr b \<Rightarrow> error w1 = Some processContent_message)"
proof (cases fetched)
  case (Inl e)
  with assms show ?thesis by (auto simp: process_fetched_def)
next
  case (Inr resp)
  show ?thesis
  proof (cases "ok resp")
    case False
    with Inr assms show ?thesis by (auto simp: process_fetched_def)
  next
    case True
    show ?thesis
    proof (cases "body resp")
      case (Inl e)
      with Inr True assms show ?thesis by (auto simp: process_fetched_def)
    next
      case body: (Inr fetched_text)
      with Inr True assms have r: "r = Inr (snd (processContent env fetched_text w))"
        and w1: "w1 = fst (processContent env fetched_text w)"
        by (auto simp: process_fetched_def split: prod.splits)
      from assms(2) r have "\<not> snd (processContent env fetched_text w)" by simp
      from processContent_failure [OF this] w1 r show ?thesis by simp
    qed
  qed
qed

lemma handleManualSubmit_failure:
  assumes "trim env (inputValue w) \<noteq> []" and "isl (generateDeckFromList env (inputValue w))"
  shows "app (handleManualSubmit env w) = app w
       \<and> delivered (handleManualSubmit env w) = delivered w
       \<and> error (handleManualSubmit env w) = Some manual_message"
proof -
  from assms(2) obtain e where "generateDeckFromList env (inputValue w) = Inl e"
    by (cases "generateDeckFromList env (inputValue w)") auto
  with assms(1) show ?thesis
    by (simp add: handleManualSubmit_def call_generateDeckFromList_def begin_loading_def)
qed

lemma handleUrlSubmit_failure:
  assumes "trim env (inputValue w) \<noteq> []"
    and "unsuccessful (handleUrlSubmit_try env sys (begin_loading w))"
  shows "app (handleUrlSubmit env sys w) = app w
       \<and> delivered (handleUrlSubmit env sys w) = delivered w
       \<and> error (handleUrlSubmit env sys w) \<in> {Some url_message, Some processContent_message}"
proof -
  obtain r w1 where tried: "handleUrlSubmit_try env sys (begin_loading w) = (r, w1)"
    by (cases "handleUrlSubmit_try env sys (begin_loading w)")
  from assms(2) tried have un: "unsuccessful (r, w1)" by simp
  have frame: "app w1 = app w \<and> delivered w1 = delivered w
       \<and> (case r of Inl e \<Rightarrow> True | Inr b \<Rightarrow> error w1 = Some processContent_message)"
  proof (cases "URL_valid sys (inputValue w)")
    case False
    with tried show ?thesis by (auto simp: handleUrlSubmit_try_def begin_loading_def)
  next
    case True
    show ?thesis
    proof (cases "fetch sys (inputValue w)")
      case (Inl e)
      with True tried show ?thesis by (auto simp: handleUrlSubmit_try_def begin_loading_def)
    next
      case (Inr resp)
      with True tried have
        "process_fetched env (''HTTP error! status: '' @ decimal (status resp)) (Inr resp)
           (begin_loading w) = (r, w1)"
        by (simp add: handleUrlSubmit_try_def begin_loading_frame)
      from process_fetched_unsuccessful [OF this un] show ?thesis
        by (simp add: begin_loading_frame)
    qed
  qed
  show ?thesis
  proof (cases r)
    case (Inl e)
    with assms(1) tried frame show ?thesis by (simp add: handleUrlSubmit_def)
  next
    case (Inr b)
    with assms(1) tried frame show ?thesis by (simp add: handleUrlSubmit_def)
  qed
qed

lemma fetchDriveFile_failure:
  assumes "unsuccessful (fetchDriveFile_try env sys fileId accessToken w)"
  shows "app (fetchDriveFile env sys fileId accessToken w) = app w
       \<and> delivered (fetchDriveFile env sys fileId accessToken w) = delivered w
       \<and> error (fetchDriveFile env sys fileId accessToken w)
           \<in> {Some drive_message, Some processContent_message}"
proof -
  obtain r w1 where tried: "fetchDriveFile_try env sys fileId accessToken w = (r, w1)"
    by (cases "fetchDriveFile_try env sys fileId accessToken w")
  from assms tried have un: "unsuccessful (r, w1)" by simp
  from tried have "process_fetched env ''Failed to download file''
      (fetch_authorized sys fileId accessToken) w = (r, w1)"
    by (simp add: fetchDriveFile_try_def)
  from process_fetched_unsuccessful [OF this un] have frame:
    "app w1 = app w \<and> delivered w1 = delivered w
       \<and> (case r of Inl e \<Rightarrow> True | Inr b \<Rightarrow> error w1 = Some processContent_message)" .
  show ?thesis
  proof (cases r)
    case (Inl e)
    with tried frame show ?thesis by (simp add: fetchDriveFile_def)
  next
    case (Inr b)
    with tried frame show ?thesis by (simp add: fetchDriveFile_def)
  qed
qed

lemma handleFileUpload_failure:
  assumes "fails env sys (FileUpload chosen) w"
  shows "app (handleFileUpload env chosen w) = app w
       \<and> delivered (handleFileUpload env chosen w) = delivered w
       \<and> error (handleFileUpload env chosen w) \<in> {Some file_message, Some processContent_message}"
proof (cases chosen)
  case None
  with assms show ?thesis by simp
next
  case (Some r)
  show ?thesis
  proof (cases r)
    case ReadFailed
    with Some show ?thesis by (simp add: handleFileUpload_def begin_loading_def)
  next
    case (Loaded content)
    with Some assms have "\<not> snd (processContent env content (begin_loading w))" by simp
    from processContent_failure [OF this] Some Loaded show ?thesis
      by (simp add: handleFileUpload_def begin_loading_frame)
  qed
qed

text \<open>
  C7. When an ingestion action fails (\<^verbatim>\<open>processContent\<close> returns false; the
  generation of a manual submit throws; the URL is refused, the fetch of a URL or of a Drive
  file throws or answers not ok, or its content is not accepted; the file reader
  reports an error or the content of the file is not accepted), then
  \<^verbatim>\<open>onDeckGenerated\<close> has not been called, the application state (deck, card index,
  flip state, script) is the one before the action, and the error message of the component
  is set to one of its five messages.
\<close>

theorem failed_ingestion_keeps_session:
  assumes "fails env sys act w"
  shows "app (perform env sys act w) = app w
       \<and> delivered (perform env sys act w) = delivered w
       \<and> error (perform env sys act w)
           \<in> {Some processContent_message, Some manual_message, Some url_message,
               Some drive_message, Some file_message}"
proof (cases act)
  case (ProcessContent content)
  with assms have "\<not> snd (processContent env content w)" by simp
  from processContent_failure [OF this] ProcessContent show ?thesis by simp
next
  case ManualSubmit
  with assms handleManualSubmit_failure [where w = w and env = env] show ?thesis by simp
next
  case UrlSubmit
  with assms handleUrlSubmit_failure [where w = w and env = env and sys = sys] show ?thesis by auto
next
  case (FileUpload chosen)
  with handleFileUpload_failure [OF assms [unfolded FileUpload]] show ?thesis by auto
next
  case (DriveFile fileId accessToken)
  with assms fetchDriveFile_failure [of env sys fileId accessToken w] show ?thesis by auto
qed

theorem failed_ingestion_keeps_session_witness:
  "fails sample_env sample_io ManualSubmit typing_world
   \<and> app (perform sample_env sample_io ManualSubmit typing_world) = second_card_flipped
   \<and> delivered (perform sample_env sample_io ManualSubmit typing_world) = []
   \<and> error (perform sample_env sample_io ManualSubmit typing_world)
       \<in> {Some processContent_message, Some manual_message, Some url_message,
           Some drive_message, Some file_message}
   \<and> requests (perform sample_env sample_io ManualSubmit typing_world) = [''apple'']"
proof -
  have rejected: "generateDeckFromList sample_env ''apple'' = Inl Rejected"
    by (simp add: generateDeckFromList_def sample_env_def)
  have typed: "inputValue typing_world = ''apple''"
    by (simp add: typing_world_def)
  have shown: "trim sample_env ''apple'' \<noteq> []"
    by (simp add: sample_env_def sample_trim_def blank_text_def)
  have failing: "fails sample_env sample_io ManualSubmit typing_world"
    by (simp add: typed shown rejected)
  have sent: "requests (perform sample_env sample_io ManualSubmit typing_world) = [''apple'']"
    by (simp add: handleManualSubmit_def typed shown call_generateDeckFromList_def rejected
        begin_loading_def) (simp add: typing_world_def)
  have before: "app typing_world = second_card_flipped" "delivered typing_world = []"
    by (simp_all add: typing_world_def)
  from failed_ingestion_keeps_session [OF failing] failing sent before
  show ?thesis by simp
qed

section \<open>Identifiers\<close>

lemma processContent_deck_import:
  assumes "JSON_parse env content = Some json" and "isValidDeck json"
    and "snd (processContent env content w)"
  shows "\<exists>cs cs'. property json ''cards'' = Arr cs
           \<and> map_index_throwing (import_card env) 0 cs = Inr cs'
           \<and> processContent env content w
               = (onDeckGenerated (Obj (set_prop (spread json) ''cards'' (Arr cs'))) w, True)"
proof -
  from assms(2) obtain kvs t cs where
    json: "json = Obj kvs" "lookup kvs ''title'' = Str t" "lookup kvs ''cards'' = Arr cs"
    unfolding isValidDeck_iff by blast
  show ?thesis
  proof (cases "map_index_throwing (import_card env) 0 cs")
    case (Inl e)
    with assms json have False
      by (simp add: processContent_def processContent_try_def)
    then show ?thesis ..
  next
    case (Inr cs')
    with assms json have "processContent env content w
               = (onDeckGenerated (Obj (set_prop (spread json) ''cards'' (Arr cs'))) w, True)"
      by (simp add: processContent_def processContent_try_def)
    with Inr json show ?thesis by simp
  qed
qed

text \<open>
  C8 (amended). Every card of a deck that ingestion returns carries an id. In the deck
  import of \<^verbatim>\<open>processContent\<close> each card of the delivered deck has a truthy id: the
  id of the card it was made from when that is truthy, and otherwise (no id, or an empty
  or otherwise falsy one) the text \<^verbatim>\<open>imported-<time>-<position>\<close>. In
  \<^verbatim>\<open>parseResponse\<close> every card gets the id \<^verbatim>\<open>card-<time>-<position>\<close>, whatever
  id the answer of the service gave it. Two ids written for different positions differ,
  whatever the clock reads.
\<close>

theorem ingested_cards_carry_ids:
  "(JSON_parse env content = Some json \<and> isValidDeck json \<and> snd (processContent env content w) \<longrightarrow>
      (\<exists>cs cs' v. property json ''cards'' = Arr cs
         \<and> fst (processContent env content w) = onDeckGenerated v w
         \<and> property v ''cards'' = Arr cs'
         \<and> length cs' = length cs
         \<and> (\<forall>n < length cs.
               truthy (property (cs' ! n) ''id'')
               \<and> property (cs' ! n) ''id''
                   = (if truthy (property (cs ! n) ''id'') then property (cs ! n) ''id''
                      else Str (imported_id env n)))))
   \<and> (parseResponse env response_text = Inr d \<longrightarrow>
      (\<exists>jsonText data gs gs'. response_text = Some jsonText
         \<and> JSON_parse env jsonText = Some data
         \<and> property data ''cards'' = Arr gs
         \<and> property d ''cards'' = Arr gs'
         \<and> length gs' = length gs
         \<and> (\<forall>n < length gs. property (gs' ! n) ''id'' = Str (generated_id env n))))
   \<and> (i \<noteq> j \<longrightarrow> imported_id env i \<noteq> imported_id env j \<and> generated_id env i \<noteq> generated_id env j)"
proof (intro conjI impI)
  assume a: "JSON_parse env content = Some json \<and> isValidDeck json
             \<and> snd (processContent env content w)"
  then have a1: "JSON_parse env content = Some json" and a2: "isValidDeck json"
    and a3: "snd (processContent env content w)" by simp_all
  from processContent_deck_import [OF a1 a2 a3] obtain cs cs' where
    cs: "property json ''cards'' = Arr cs"
    and cs': "map_index_throwing (import_card env) 0 cs = Inr cs'"
    and res: "processContent env content w
               = (onDeckGenerated (Obj (set_prop (spread json) ''cards'' (Arr cs'))) w, True)"
    by blast
  let ?v = "Obj (set_prop (spread json) ''cards'' (Arr cs'))"
  from map_index_throwing_nth [OF cs'] have
    len: "length cs' = length cs"
    and each: "\<forall>n < length cs. import_card env (cs ! n) (0 + n) = Inr (cs' ! n)" by simp_all
  have ids: "truthy (property (cs' ! n) ''id'')
             \<and> property (cs' ! n) ''id''
                 = (if truthy (property (cs ! n) ''id'') then property (cs ! n) ''id''
                    else Str (imported_id env n))" if "n < length cs" for n
  proof -
    from each that have "import_card env (cs ! n) n = Inr (cs' ! n)" by simp
    from import_card_id [OF this] show ?thesis
      by (simp add: js_or_def imported_id_nonempty)
  qed
  have "property ?v ''cards'' = Arr cs'" by (simp add: lookup_set_prop_same)
  with cs res len ids
  show "\<exists>cs cs' v. property json ''cards'' = Arr cs
         \<and> fst (processContent env content w) = onDeckGenerated v w
         \<and> property v ''cards'' = Arr cs'
         \<and> length cs' = length cs
         \<and> (\<forall>n < length cs.
               truthy (property (cs' ! n) ''id'')
               \<and> property (cs' ! n) ''id''
                   = (if truthy (property (cs ! n) ''id'') then property (cs ! n) ''id''
                      else Str (imported_id env n)))"
    by (rule_tac x = cs in exI, rule_tac x = cs' in exI, rule_tac x = ?v in exI) simp
next
  assume "parseResponse env response_text = Inr d"
  from parseResponse_cards [OF this] obtain jsonText data gs where
    p: "response_text = Some jsonText" "JSON_parse env jsonText = Some data"
       "property data ''cards'' = Arr gs"
       "property d ''cards'' = Arr (map_index (with_generated_id env) 0 gs)" by blast
  have "\<forall>n < length gs. property (map_index (with_generated_id env) 0 gs ! n) ''id''
            = Str (generated_id env n)"
    by (simp add: map_index_nth with_generated_id_id)
  with p show "\<exists>jsonText data gs gs'. response_text = Some jsonText
         \<and> JSON_parse env jsonText = Some data
         \<and> property data ''cards'' = Arr gs
         \<and> property d ''cards'' = Arr gs'
         \<and> length gs' = length gs
         \<and> (\<forall>n < length gs. property (gs' ! n) ''id'' = Str (generated_id env n))"
    by (rule_tac x = jsonText in exI, rule_tac x = data in exI, rule_tac x = gs in exI,
        rule_tac x = "map_index (with_generated_id env) 0 gs" in exI)
      (simp add: map_index_length)
next
  assume "i \<noteq> j"
  then show "imported_id env i \<noteq> imported_id env j" using imported_id_inj by blast
next
  assume "i \<noteq> j"
  then show "generated_id env i \<noteq> generated_id env j" using generated_id_inj by blast
qed

theorem ingested_cards_carry_ids_witness:
  "JSON_parse sample_env blank_id_text = Some (deck_json blank_id_deck)
   \<and> isValidDeck (deck_json blank_id_deck)
   \<and> snd (processContent sample_env blank_id_text initial_world)
   \<and> parseResponse sample_env (Some answer_text) = Inr generated_deck
   \<and> (0::nat) \<noteq> 1
   \<and> (\<exists>cs cs' v. property (deck_json blank_id_deck) ''cards'' = Arr cs
         \<and> fst (processContent sample_env blank_id_text initial_world)
             = onDeckGenerated v initial_world
         \<and> property v ''cards'' = Arr cs'
         \<and> length cs' = length cs
         \<and> (\<forall>n < length cs.
               truthy (property (cs' ! n) ''id'')
               \<and> property (cs' ! n) ''id''
                   = (if truthy (property (cs ! n) ''id'') then property (cs ! n) ''id''
                      else Str (imported_id sample_env n))))
   \<and> (\<exists>jsonText data gs gs'. Some answer_text = Some jsonText
         \<and> JSON_parse sample_env jsonText = Some data
         \<and> property data ''cards'' = Arr gs
         \<and> property generated_deck ''cards'' = Arr gs'
         \<and> length gs' = length gs
         \<and> (\<forall>n < length gs. property (gs' ! n) ''id'' = Str (generated_id sample_env n)))
   \<and> imported_id sample_env 0 \<noteq> imported_id sample_env 1
   \<and> generated_id sample_env 0 \<noteq> generated_id sample_env 1"
proof -
  have h1: "JSON_parse sample_env blank_id_text = Some (deck_json blank_id_deck)"
    by (rule sample_parse_blank_id)
  have h2: "isValidDeck (deck_json blank_id_deck)"
    by (simp add: isValidDeck_def deck_json_def lookup_def)
  have h3: "snd (processContent sample_env blank_id_text initial_world)"
    by (simp add: sample_import_blank_id)
  have h4: "parseResponse sample_env (Some answer_text) = Inr generated_deck"
    by (rule sample_parseResponse)
  have h5: "(0::nat) \<noteq> 1" by simp
  from ingested_cards_carry_ids [of sample_env blank_id_text "deck_json blank_id_deck"
      initial_world "Some answer_text" generated_deck 0 1] h1 h2 h3 h4 h5
  show ?thesis by blast
qed

text \<open>
  The card of the sample answer carries the id \<^verbatim>\<open>keep-me\<close>; in the deck that
  \<^verbatim>\<open>parseResponse\<close> returns its id is \<^verbatim>\<open>card-1700000000123-0\<close>.
\<close>

theorem generated_id_overwrites_counterexample:
  "JSON_parse sample_env answer_text = Some answer_json
   \<and> property answer_json ''cards'' = Arr [answer_card]
   \<and> property answer_card ''id'' = Str ''keep-me''
   \<and> parseResponse sample_env (Some answer_text) = Inr generated_deck
   \<and> property generated_deck ''cards'' = Arr [generated_card]
   \<and> property generated_card ''id'' = Str ''card-1700000000123-0''"
proof -
  have c2: "property answer_json ''cards'' = Arr [answer_card]"
    by (simp add: answer_json_def lookup_def)
  have c3: "property answer_card ''id'' = Str ''keep-me''"
    by (simp add: answer_card_def lookup_def)
  have c5: "property generated_deck ''cards'' = Arr [generated_card]"
    by (simp add: generated_deck_def lookup_def)
  have c6: "property generated_card ''id'' = Str ''card-1700000000123-0''"
    by (simp add: generated_card_def lookup_def)
  from sample_parse_answer c2 c3 sample_parseResponse c5 c6 show ?thesis by blast
qed

end
